theory Spec2Isabelle
  imports Main
begin

section \<open>Go values used by the sources\<close>

text \<open>
  Strings are byte lists. \<open>strings.TrimSpace\<close>, \<open>strings.ToUpper\<close> and
  \<open>strings.HasPrefix\<close> of the Go library are modelled on ASCII text: white space is
  tab, line feed, vertical tab, form feed, carriage return and space, and upper-casing
  maps \<open>a..z\<close> to \<open>A..Z\<close> and leaves every other byte alone. On ASCII text
  these are the Go functions. On a string with bytes above 0x7F the Go functions decode
  UTF-8 (they strip Unicode white space and map every Unicode letter), so the
  definitions below are used only where the engines are evaluated on ASCII text;
  what is proved of the sequential engine for every input takes the two library
  functions as parameters (\<open>ParseStream_with\<close> below). \<open>strings.HasPrefix\<close>
  compares bytes, in Go as here.
\<close>

definition isSpace :: "char \<Rightarrow> bool" where
  "isSpace c = (c \<in> set [CHR 0x09, CHR 0x0A, CHR 0x0B, CHR 0x0C, CHR 0x0D, CHR '' ''])"

definition TrimSpace :: "string \<Rightarrow> string" where
  "TrimSpace s = rev (dropWhile isSpace (rev (dropWhile isSpace s)))"

definition toUpperByte :: "char \<Rightarrow> char" where
  "toUpperByte c =
     (case map_of (zip ''abcdefghijklmnopqrstuvwxyz'' ''ABCDEFGHIJKLMNOPQRSTUVWXYZ'') c of
        Some u \<Rightarrow> u
      | None \<Rightarrow> c)"

definition ToUpper :: "string \<Rightarrow> string" where
  "ToUpper s = map toUpperByte s"

definition HasPrefix :: "string \<Rightarrow> string \<Rightarrow> bool" where
  "HasPrefix s pre = (length pre \<le> length s \<and> take (length pre) s = pre)"

text \<open>
  Error values. The two package-level errors of the batch processor and the two errors
  of package \<open>context\<close> are compared by identity in Go, so each is a constructor of
  its own; \<open>Errorf m\<close> is an error made by \<open>fmt.Errorf\<close> or \<open>errors.New\<close> with
  message \<open>m\<close>. \<open>io.EOF\<close> never leaves the reader loop and is the end of the list of
  reads below.
\<close>

datatype error =
    ErrBatchProcessorStopped
  | ErrBatchTimeout
  | DeadlineExceeded
  | Canceled
  | Errorf string

fun Error :: "error \<Rightarrow> string" where
  "Error ErrBatchProcessorStopped = ''batch processor stopped''"
| "Error ErrBatchTimeout = ''batch processing timeout''"
| "Error DeadlineExceeded = ''context deadline exceeded''"
| "Error Canceled = ''context canceled''"
| "Error (Errorf m) = m"

text \<open>
  Panics of the Go runtime that the sources can raise, and \<open>HandlerPanic\<close> for a
  panic inside the caller's handler. A call either returns a value or panics.
\<close>

datatype panic = SendOnClosedChannel | CloseOfClosedChannel | MakechanSizeOutOfRange | HandlerPanic

datatype 'a outcome = Returned 'a | Panicked panic

text \<open>
  A buffered channel: the values waiting in it (oldest first), its capacity and
  whether it has been closed. \<open>make\<close> panics on a negative capacity (capacities are
  taken to fit in memory); \<open>close\<close> panics on a closed channel; a send panics on a
  closed channel, blocks on a full one and otherwise appends; a receive takes the
  oldest value, reports a closed and drained channel, and blocks on an empty open one.
  The rendezvous of an unbuffered channel (capacity 0) is not modelled: with capacity 0
  a send blocks.
\<close>

record 'a chan =
  buf :: "'a list"
  cap :: nat
  closed :: bool

definition makechan :: "int \<Rightarrow> panic + 'a chan" where
  "makechan n =
     (if n < 0 then Inl MakechanSizeOutOfRange
      else Inr \<lparr>buf = [], cap = nat n, closed = False\<rparr>)"

definition close_chan :: "'a chan \<Rightarrow> panic + 'a chan" where
  "close_chan c = (if closed c then Inl CloseOfClosedChannel else Inr (c\<lparr>closed := True\<rparr>))"

datatype 'a sent = SendBlocks | SendPanics | Sent "'a chan"

definition send :: "'a chan \<Rightarrow> 'a \<Rightarrow> 'a sent" where
  "send c x =
     (if closed c then SendPanics
      else if length (buf c) < cap c then Sent (c\<lparr>buf := buf c @ [x]\<rparr>)
      else SendBlocks)"

datatype 'a received = RecvBlocks | RecvClosed | Received 'a "'a chan"

definition recv :: "'a chan \<Rightarrow> 'a received" where
  "recv c =
     (case buf c of
        x # rest \<Rightarrow> Received x (c\<lparr>buf := rest\<rparr>)
      | [] \<Rightarrow> if closed c then RecvClosed else RecvBlocks)"

text \<open>
  A context is modelled by what \<open>ctx.Err()\<close> returns: \<open>None\<close> while it is not done.
  \<open>context.WithTimeout\<close> on a parent that is done yields a done context with the
  parent's error, a timeout that is not positive yields an expired one; \<open>cancel\<close>
  is the function \<open>WithTimeout\<close> returns.
\<close>

definition WithTimeout :: "error option \<Rightarrow> int \<Rightarrow> error option" where
  "WithTimeout parent d =
     (case parent of
        Some err \<Rightarrow> Some err
      | None \<Rightarrow> if d \<le> 0 then Some DeadlineExceeded else None)"

definition cancel :: "error option \<Rightarrow> error option" where
  "cancel c = (case c of Some err \<Rightarrow> Some err | None \<Rightarrow> Some Canceled)"

section \<open>The canonical schema (package sqlmapper)\<close>

text \<open>
  The types of package \<open>sqlmapper\<close> are declared outside the files at hand; the
  records below carry the fields that \<open>mysql_stream.go\<close> reads. The columns of a
  table and the contents of an index are never inspected by that file (they are only
  handed to the dialect's renderer), so they stay type parameters \<open>'c\<close> and \<open>'i\<close>.
\<close>

record ('c, 'i) Table =
  Table_Name :: string
  Table_Columns :: 'c
  Table_Indexes :: "'i list"

record View =
  View_Name :: string
  View_Definition :: string

record Parameter =
  Parameter_Name :: string
  Parameter_DataType :: string

record Function =
  Function_Name :: string
  Function_Parameters :: "Parameter list"
  Function_Returns :: string
  Function_Body :: string
  Function_IsProc :: bool

record Trigger =
  Trigger_Name :: string
  Trigger_Timing :: string
  Trigger_Event :: string
  Trigger_Table :: string
  Trigger_Body :: string

record ('c, 'i) Schema =
  Tables :: "('c, 'i) Table list"
  Views :: "View list"
  Functions :: "Function list"
  Triggers :: "Trigger list"

definition emptySchema :: "('c, 'i) Schema" where
  "emptySchema = \<lparr>Tables = [], Views = [], Functions = [], Triggers = []\<rparr>"

datatype ObjectType = TableObject | ViewObject | FunctionObject | ProcedureObject | TriggerObject

datatype ('c, 'i) ObjectData =
    TableData "('c, 'i) Table"
  | ViewData View
  | FunctionData Function
  | TriggerData Trigger

record ('c, 'i) SchemaObject =
  Type :: ObjectType
  Data :: "('c, 'i) ObjectData"

section \<open>The dialect's capabilities (type MySQL)\<close>

text \<open>
  \<open>parseTables\<close>, \<open>parseViews\<close>, \<open>parseFunctions\<close>, \<open>parseTriggers\<close>,
  \<open>generateTableSQL\<close> and \<open>generateIndexSQL\<close> are methods of \<open>*MySQL\<close> whose
  bodies are not among the files at hand; they are parameters of the model. A parse
  method reads the statement and appends what it finds to the schema \<open>p.mysql.schema\<close>
  points to: here a function from the statement and that schema to the error (if any)
  and the schema afterwards.
\<close>

record ('c, 'i) MySQL =
  parseTables :: "string \<Rightarrow> ('c, 'i) Schema \<Rightarrow> error option \<times> ('c, 'i) Schema"
  parseViews :: "string \<Rightarrow> ('c, 'i) Schema \<Rightarrow> error option \<times> ('c, 'i) Schema"
  parseFunctions :: "string \<Rightarrow> ('c, 'i) Schema \<Rightarrow> error option \<times> ('c, 'i) Schema"
  parseTriggers :: "string \<Rightarrow> ('c, 'i) Schema \<Rightarrow> error option \<times> ('c, 'i) Schema"
  generateTableSQL :: "('c, 'i) Table \<Rightarrow> string"
  generateIndexSQL :: "string \<Rightarrow> 'i \<Rightarrow> string"

section \<open>mysql\_stream.go: parsing one statement\<close>

text \<open>
  Each \<open>parse...Statement\<close> makes a fresh temporary schema, stores it in
  \<open>p.mysql.schema\<close>, runs the dialect's parser on it and returns the first entity of
  the kind, or an error. The second component of the result is the schema that
  \<open>p.mysql.schema\<close> points to when the function returns.
\<close>

definition parseTableStatement ::
  "('c, 'i) MySQL \<Rightarrow> string \<Rightarrow> (error + ('c, 'i) Table) \<times> ('c, 'i) Schema" where
  "parseTableStatement p statement =
     (let tempSchema = emptySchema;
          (err, tempSchema) = parseTables p statement tempSchema
      in case err of
           Some e \<Rightarrow> (Inl e, tempSchema)
         | None \<Rightarrow>
             if length (Tables tempSchema) = 0
             then (Inl (Errorf ''no table found in statement''), tempSchema)
             else (Inr (hd (Tables tempSchema)), tempSchema))"

definition parseViewStatement ::
  "('c, 'i) MySQL \<Rightarrow> string \<Rightarrow> (error + View) \<times> ('c, 'i) Schema" where
  "parseViewStatement p statement =
     (let tempSchema = emptySchema;
          (err, tempSchema) = parseViews p statement tempSchema
      in case err of
           Some e \<Rightarrow> (Inl e, tempSchema)
         | None \<Rightarrow>
             if length (Views tempSchema) = 0
             then (Inl (Errorf ''no view found in statement''), tempSchema)
             else (Inr (hd (Views tempSchema)), tempSchema))"

definition parseFunctionStatement ::
  "('c, 'i) MySQL \<Rightarrow> string \<Rightarrow> (error + Function) \<times> ('c, 'i) Schema" where
  "parseFunctionStatement p statement =
     (let tempSchema = emptySchema;
          (err, tempSchema) = parseFunctions p statement tempSchema
      in case err of
           Some e \<Rightarrow> (Inl e, tempSchema)
         | None \<Rightarrow>
             if length (Functions tempSchema) = 0
             then (Inl (Errorf ''no function found in statement''), tempSchema)
             else (Inr (hd (Functions tempSchema)), tempSchema))"

definition parseProcedureStatement ::
  "('c, 'i) MySQL \<Rightarrow> string \<Rightarrow> (error + Function) \<times> ('c, 'i) Schema" where
  "parseProcedureStatement p statement =
     (let tempSchema = emptySchema;
          (err, tempSchema) = parseFunctions p statement tempSchema
      in case err of
           Some e \<Rightarrow> (Inl e, tempSchema)
         | None \<Rightarrow>
             if length (Functions tempSchema) = 0
             then (Inl (Errorf ''no procedure found in statement''), tempSchema)
             else (Inr (hd (Functions tempSchema)), tempSchema))"

definition parseTriggerStatement ::
  "('c, 'i) MySQL \<Rightarrow> string \<Rightarrow> (error + Trigger) \<times> ('c, 'i) Schema" where
  "parseTriggerStatement p statement =
     (let tempSchema = emptySchema;
          (err, tempSchema) = parseTriggers p statement tempSchema
      in case err of
           Some e \<Rightarrow> (Inl e, tempSchema)
         | None \<Rightarrow>
             if length (Triggers tempSchema) = 0
             then (Inl (Errorf ''no trigger found in statement''), tempSchema)
             else (Inr (hd (Triggers tempSchema)), tempSchema))"

text \<open>
  \<open>parseStatement\<close> (the classifier of the parallel engine): \<open>Inl err\<close> is
  \<open>(nil, err)\<close>, \<open>Inr None\<close> is \<open>(nil, nil)\<close> and \<open>Inr (Some obj)\<close> is
  \<open>(&obj, nil)\<close>. The \<open>switch\<close> has four cases.
\<close>

definition parseStatement ::
  "('c, 'i) MySQL \<Rightarrow> string \<Rightarrow> error + ('c, 'i) SchemaObject option" where
  "parseStatement p statement =
     (let upperStatement = ToUpper statement in
      if HasPrefix upperStatement ''CREATE TABLE'' then
        (case fst (parseTableStatement p statement) of
           Inl err \<Rightarrow> Inl err
         | Inr table \<Rightarrow> Inr (Some \<lparr>Type = TableObject, Data = TableData table\<rparr>))
      else if HasPrefix upperStatement ''CREATE VIEW'' then
        (case fst (parseViewStatement p statement) of
           Inl err \<Rightarrow> Inl err
         | Inr view \<Rightarrow> Inr (Some \<lparr>Type = ViewObject, Data = ViewData view\<rparr>))
      else if HasPrefix upperStatement ''CREATE FUNCTION'' then
        (case fst (parseFunctionStatement p statement) of
           Inl err \<Rightarrow> Inl err
         | Inr function \<Rightarrow> Inr (Some \<lparr>Type = FunctionObject, Data = FunctionData function\<rparr>))
      else if HasPrefix upperStatement ''CREATE PROCEDURE'' then
        (case fst (parseProcedureStatement p statement) of
           Inl err \<Rightarrow> Inl err
         | Inr procedure \<Rightarrow> Inr (Some \<lparr>Type = ProcedureObject, Data = FunctionData procedure\<rparr>))
      else Inr None)"

section \<open>mysql\_stream.go: the sequential engine ParseStream\<close>

text \<open>
  The stream reader (\<open>sqlmapper.NewStreamReader\<close>, \<open>ReadStatement\<close>) is not among
  the files at hand. It is modelled by what it hands to the loop: the list of the
  results of its successive \<open>ReadStatement\<close> calls, each a statement or a failure;
  when the list is used up the reader reports \<open>io.EOF\<close>.

  The callback is a function of the caller: from the caller's state and the object to
  the error it returns (if any) and the caller's state afterwards. The engines also
  record, in order, the objects the callback was invoked on.
\<close>

datatype read_result = Statement string | Failure error

type_synonym ('c, 'i, 'u) callback =
  "'u \<Rightarrow> ('c, 'i) SchemaObject \<Rightarrow> error option \<times> 'u"

datatype flow = Continue | Return error

definition invoke ::
  "('c, 'i, 'u) callback \<Rightarrow> ('c, 'i) SchemaObject \<Rightarrow> 'u \<Rightarrow> ('c, 'i) SchemaObject list
     \<Rightarrow> flow \<times> 'u \<times> ('c, 'i) SchemaObject list" where
  "invoke callback obj u calls =
     (case callback u obj of
        (Some err, u') \<Rightarrow> (Return err, u', calls @ [obj])
      | (None, u') \<Rightarrow> (Continue, u', calls @ [obj]))"

text \<open>One iteration of the \<open>for\<close> loop of \<open>ParseStream\<close>, after the read.\<close>

definition ParseStream_body ::
  "('c, 'i) MySQL \<Rightarrow> ('c, 'i, 'u) callback \<Rightarrow> string \<Rightarrow> 'u \<Rightarrow> ('c, 'i) SchemaObject list
     \<Rightarrow> flow \<times> 'u \<times> ('c, 'i) SchemaObject list" where
  "ParseStream_body p callback raw u calls =
     (let statement = TrimSpace raw in
      if statement = [] then (Continue, u, calls)
      else if HasPrefix (ToUpper statement) ''CREATE TABLE'' then
        (case fst (parseTableStatement p statement) of
           Inl err \<Rightarrow> (Return err, u, calls)
         | Inr table \<Rightarrow> invoke callback \<lparr>Type = TableObject, Data = TableData table\<rparr> u calls)
      else if HasPrefix (ToUpper statement) ''CREATE VIEW'' then
        (case fst (parseViewStatement p statement) of
           Inl err \<Rightarrow> (Return err, u, calls)
         | Inr view \<Rightarrow> invoke callback \<lparr>Type = ViewObject, Data = ViewData view\<rparr> u calls)
      else if HasPrefix (ToUpper statement) ''CREATE FUNCTION'' then
        (case fst (parseFunctionStatement p statement) of
           Inl err \<Rightarrow> (Return err, u, calls)
         | Inr function \<Rightarrow>
             invoke callback \<lparr>Type = FunctionObject, Data = FunctionData function\<rparr> u calls)
      else if HasPrefix (ToUpper statement) ''CREATE PROCEDURE'' then
        (case fst (parseProcedureStatement p statement) of
           Inl err \<Rightarrow> (Return err, u, calls)
         | Inr procedure \<Rightarrow>
             invoke callback \<lparr>Type = ProcedureObject, Data = FunctionData procedure\<rparr> u calls)
      else if HasPrefix (ToUpper statement) ''CREATE TRIGGER'' then
        (case fst (parseTriggerStatement p statement) of
           Inl err \<Rightarrow> (Return err, u, calls)
         | Inr trigger \<Rightarrow>
             invoke callback \<lparr>Type = TriggerObject, Data = TriggerData trigger\<rparr> u calls)
      else (Continue, u, calls))"

text \<open>
  \<open>ParseStream\<close>: the result is the returned error (\<open>None\<close> is \<open>nil\<close>), the
  caller's state and the objects the callback was invoked on.
\<close>

fun ParseStream ::
  "('c, 'i) MySQL \<Rightarrow> ('c, 'i, 'u) callback \<Rightarrow> read_result list \<Rightarrow> 'u
     \<Rightarrow> ('c, 'i) SchemaObject list \<Rightarrow> error option \<times> 'u \<times> ('c, 'i) SchemaObject list" where
  "ParseStream p callback [] u calls = (None, u, calls)"
| "ParseStream p callback (Failure err # rest) u calls =
     (Some (Errorf (''error reading statement: '' @ Error err)), u, calls)"
| "ParseStream p callback (Statement raw # rest) u calls =
     (case ParseStream_body p callback raw u calls of
        (Return err, u', calls') \<Rightarrow> (Some err, u', calls')
      | (Continue, u', calls') \<Rightarrow> ParseStream p callback rest u' calls')"

text \<open>
  The same loop with \<open>strings.TrimSpace\<close> and \<open>strings.ToUpper\<close> as parameters:
  \<open>ParseStream_with trimSpace toUpper\<close> is \<open>ParseStream\<close> of the source for
  whatever the two library functions do, on ASCII text or not, and \<open>ParseStream\<close>
  above is its instance at the ASCII definitions.
\<close>

definition ParseStream_body_with ::
  "(string \<Rightarrow> string) \<Rightarrow> (string \<Rightarrow> string) \<Rightarrow> ('c, 'i) MySQL \<Rightarrow> ('c, 'i, 'u) callback
     \<Rightarrow> string \<Rightarrow> 'u \<Rightarrow> ('c, 'i) SchemaObject list
     \<Rightarrow> flow \<times> 'u \<times> ('c, 'i) SchemaObject list" where
  "ParseStream_body_with trimSpace toUpper p callback raw u calls =
     (let statement = trimSpace raw in
      if statement = [] then (Continue, u, calls)
      else if HasPrefix (toUpper statement) ''CREATE TABLE'' then
        (case fst (parseTableStatement p statement) of
           Inl err \<Rightarrow> (Return err, u, calls)
         | Inr table \<Rightarrow> invoke callback \<lparr>Type = TableObject, Data = TableData table\<rparr> u calls)
      else if HasPrefix (toUpper statement) ''CREATE VIEW'' then
        (case fst (parseViewStatement p statement) of
           Inl err \<Rightarrow> (Return err, u, calls)
         | Inr view \<Rightarrow> invoke callback \<lparr>Type = ViewObject, Data = ViewData view\<rparr> u calls)
      else if HasPrefix (toUpper statement) ''CREATE FUNCTION'' then
        (case fst (parseFunctionStatement p statement) of
           Inl err \<Rightarrow> (Return err, u, calls)
         | Inr function \<Rightarrow>
             invoke callback \<lparr>Type = FunctionObject, Data = FunctionData function\<rparr> u calls)
      else if HasPrefix (toUpper statement) ''CREATE PROCEDURE'' then
        (case fst (parseProcedureStatement p statement) of
           Inl err \<Rightarrow> (Return err, u, calls)
         | Inr procedure \<Rightarrow>
             invoke callback \<lparr>Type = ProcedureObject, Data = FunctionData procedure\<rparr> u calls)
      else if HasPrefix (toUpper statement) ''CREATE TRIGGER'' then
        (case fst (parseTriggerStatement p statement) of
           Inl err \<Rightarrow> (Return err, u, calls)
         | Inr trigger \<Rightarrow>
             invoke callback \<lparr>Type = TriggerObject, Data = TriggerData trigger\<rparr> u calls)
      else (Continue, u, calls))"

fun ParseStream_with ::
  "(string \<Rightarrow> string) \<Rightarrow> (string \<Rightarrow> string) \<Rightarrow> ('c, 'i) MySQL \<Rightarrow> ('c, 'i, 'u) callback
     \<Rightarrow> read_result list \<Rightarrow> 'u \<Rightarrow> ('c, 'i) SchemaObject list
     \<Rightarrow> error option \<times> 'u \<times> ('c, 'i) SchemaObject list" where
  "ParseStream_with trimSpace toUpper p callback [] u calls = (None, u, calls)"
| "ParseStream_with trimSpace toUpper p callback (Failure err # rest) u calls =
     (Some (Errorf (''error reading statement: '' @ Error err)), u, calls)"
| "ParseStream_with trimSpace toUpper p callback (Statement raw # rest) u calls =
     (case ParseStream_body_with trimSpace toUpper p callback raw u calls of
        (Return err, u', calls') \<Rightarrow> (Some err, u', calls')
      | (Continue, u', calls') \<Rightarrow> ParseStream_with trimSpace toUpper p callback rest u' calls')"

section \<open>mysql\_stream.go: the parallel engine ParseStreamParallel\<close>

text \<open>
  \<open>ParseStreamParallel\<close> runs four kinds of goroutine: the producer that reads
  statements and sends them on \<open>statements\<close> (lines 164 to 182), \<open>workers\<close>
  workers that parse them with \<open>parseStatement\<close> (lines 142 to 154), the goroutine
  that closes \<open>results\<close> once every worker has returned (lines 158 to 161), and the
  caller, which ranges over \<open>results\<close>, invokes the callback and last looks at
  \<open>errors\<close> (lines 185 to 197). The model is an interleaving of their steps on one
  shared state. The workers share \<open>p.mysql.schema\<close> without synchronisation in the
  source; here a worker's call of \<open>parseStatement\<close> is one step.

  The producer is about to read, is sending a read error, is sending a statement, or
  has closed \<open>statements\<close> and returned. A worker is at its \<open>range\<close>, is sending
  an error, is sending a result, or has returned. The caller is in its \<open>range\<close>,
  at the final \<open>select\<close>, or has returned.
\<close>

datatype producer_pc = PRead | PSendErr error | PSend string | PExit

datatype ('c, 'i) pworker_pc =
    PWRange
  | PWSendErr error
  | PWSendResult "('c, 'i) SchemaObject"
  | PWExit

datatype pmain_pc = PMRange | PMCheck | PMDone "error option"

record ('c, 'i, 'u) psp_state =
  reader :: "read_result list"
  producer :: producer_pc
  statements :: "string chan"
  results :: "('c, 'i) SchemaObject chan"
  errors :: "error chan"
  pworkers :: "('c, 'i) pworker_pc list"
  pmain :: pmain_pc
  ustate :: 'u
  invocations :: "('c, 'i) SchemaObject list"
  pcrashed :: bool

text \<open>
  Lines 133 to 155: the three channels of capacity \<open>workers\<close> and the workers. The
  state is the one in which all goroutines have been started and none has taken a step.
\<close>

definition ParseStreamParallel_start ::
  "read_result list \<Rightarrow> 'u \<Rightarrow> int \<Rightarrow> panic + ('c, 'i, 'u) psp_state" where
  "ParseStreamParallel_start reads u workerCount =
     (case makechan workerCount of
        Inl pn \<Rightarrow> Inl pn
      | Inr c1 \<Rightarrow>
     (case makechan workerCount of
        Inl pn \<Rightarrow> Inl pn
      | Inr c2 \<Rightarrow>
     (case makechan workerCount of
        Inl pn \<Rightarrow> Inl pn
      | Inr c3 \<Rightarrow>
          Inr \<lparr>reader = reads, producer = PRead, statements = c1, results = c2,
               errors = c3, pworkers = replicate (nat workerCount) PWRange, pmain = PMRange,
               ustate = u, invocations = [], pcrashed = False\<rparr>)))"

text \<open>The producer, lines 164 to 182.\<close>

definition close_statements :: "('c, 'i, 'u) psp_state \<Rightarrow> ('c, 'i, 'u) psp_state" where
  "close_statements s =
     (case close_chan (statements s) of
        Inl pn \<Rightarrow> s\<lparr>producer := PExit, pcrashed := True\<rparr>
      | Inr c \<Rightarrow> s\<lparr>producer := PExit, statements := c\<rparr>)"

definition producer_step :: "('c, 'i, 'u) psp_state \<Rightarrow> ('c, 'i, 'u) psp_state option" where
  "producer_step s =
     (case producer s of
        PRead \<Rightarrow>
          (case reader s of
             [] \<Rightarrow> Some (close_statements s)
           | Failure err # rest \<Rightarrow>
               Some (s\<lparr>reader := rest,
                       producer := PSendErr (Errorf (''error reading statement: '' @ Error err))\<rparr>)
           | Statement raw # rest \<Rightarrow>
               (let statement = TrimSpace raw in
                if statement = [] then Some (s\<lparr>reader := rest\<rparr>)
                else Some (s\<lparr>reader := rest, producer := PSend statement\<rparr>)))
      | PSendErr err \<Rightarrow>
          (case send (errors s) err of
             SendBlocks \<Rightarrow> None
           | SendPanics \<Rightarrow> Some (s\<lparr>producer := PExit, pcrashed := True\<rparr>)
           | Sent c \<Rightarrow> Some (close_statements (s\<lparr>errors := c\<rparr>)))
      | PSend statement \<Rightarrow>
          (case send (statements s) statement of
             SendBlocks \<Rightarrow> None
           | SendPanics \<Rightarrow> Some (s\<lparr>producer := PExit, pcrashed := True\<rparr>)
           | Sent c \<Rightarrow> Some (s\<lparr>statements := c, producer := PRead\<rparr>))
      | PExit \<Rightarrow> None)"

text \<open>Worker \<open>i\<close>, lines 142 to 154.\<close>

definition pworker_step ::
  "('c, 'i) MySQL \<Rightarrow> nat \<Rightarrow> ('c, 'i, 'u) psp_state \<Rightarrow> ('c, 'i, 'u) psp_state option" where
  "pworker_step p i s =
     (if i < length (pworkers s) then
        (case pworkers s ! i of
           PWRange \<Rightarrow>
             (case recv (statements s) of
                RecvBlocks \<Rightarrow> None
              | RecvClosed \<Rightarrow> Some (s\<lparr>pworkers := (pworkers s)[i := PWExit]\<rparr>)
              | Received statement c \<Rightarrow>
                  (case parseStatement p statement of
                     Inl err \<Rightarrow>
                       Some (s\<lparr>statements := c, pworkers := (pworkers s)[i := PWSendErr err]\<rparr>)
                   | Inr None \<Rightarrow> Some (s\<lparr>statements := c\<rparr>)
                   | Inr (Some obj) \<Rightarrow>
                       Some (s\<lparr>statements := c, pworkers := (pworkers s)[i := PWSendResult obj]\<rparr>)))
         | PWSendErr err \<Rightarrow>
             (case send (errors s) err of
                SendBlocks \<Rightarrow> None
              | SendPanics \<Rightarrow> Some (s\<lparr>pworkers := (pworkers s)[i := PWExit], pcrashed := True\<rparr>)
              | Sent c \<Rightarrow> Some (s\<lparr>errors := c, pworkers := (pworkers s)[i := PWExit]\<rparr>))
         | PWSendResult obj \<Rightarrow>
             (case send (results s) obj of
                SendBlocks \<Rightarrow> None
              | SendPanics \<Rightarrow> Some (s\<lparr>pworkers := (pworkers s)[i := PWExit], pcrashed := True\<rparr>)
              | Sent c \<Rightarrow> Some (s\<lparr>results := c, pworkers := (pworkers s)[i := PWRange]\<rparr>))
         | PWExit \<Rightarrow> None)
      else None)"

text \<open>Lines 158 to 161: \<open>wg.Wait()\<close> returns when every worker has returned.\<close>

definition closer_step :: "('c, 'i, 'u) psp_state \<Rightarrow> ('c, 'i, 'u) psp_state option" where
  "closer_step s =
     (if list_all (\<lambda>w. w = PWExit) (pworkers s) \<and> \<not> closed (results s)
      then Some (s\<lparr>results := (results s)\<lparr>closed := True\<rparr>\<rparr>)
      else None)"

text \<open>
  The caller, lines 185 to 197. The last \<open>select\<close> has a \<open>default\<close> case: it
  takes a pending error if there is one and returns \<open>nil\<close> otherwise.
\<close>

definition pmain_step ::
  "('c, 'i, 'u) callback \<Rightarrow> ('c, 'i, 'u) psp_state \<Rightarrow> ('c, 'i, 'u) psp_state option" where
  "pmain_step callback s =
     (case pmain s of
        PMRange \<Rightarrow>
          (case recv (results s) of
             RecvBlocks \<Rightarrow> None
           | RecvClosed \<Rightarrow> Some (s\<lparr>pmain := PMCheck\<rparr>)
           | Received obj c \<Rightarrow>
               (case callback (ustate s) obj of
                  (Some err, u') \<Rightarrow>
                    Some (s\<lparr>results := c, ustate := u', invocations := invocations s @ [obj],
                            pmain := PMDone (Some err)\<rparr>)
                | (None, u') \<Rightarrow>
                    Some (s\<lparr>results := c, ustate := u', invocations := invocations s @ [obj]\<rparr>)))
      | PMCheck \<Rightarrow>
          (case recv (errors s) of
             Received err c \<Rightarrow> Some (s\<lparr>errors := c, pmain := PMDone (Some err)\<rparr>)
           | RecvBlocks \<Rightarrow> Some (s\<lparr>pmain := PMDone None\<rparr>)
           | RecvClosed \<Rightarrow> Some (s\<lparr>pmain := PMDone None\<rparr>))
      | PMDone result \<Rightarrow> None)"

text \<open>
  A step of the whole is a step of one goroutine; \<open>psp_reach\<close> is reachability by
  such steps and \<open>psp_run\<close> runs a given schedule.
\<close>

datatype paction = Producer | PWorker nat | Closer | PMain

definition psp_exec ::
  "('c, 'i) MySQL \<Rightarrow> ('c, 'i, 'u) callback \<Rightarrow> paction
     \<Rightarrow> ('c, 'i, 'u) psp_state \<Rightarrow> ('c, 'i, 'u) psp_state option" where
  "psp_exec p callback a s =
     (if pcrashed s then None
      else case a of
             Producer \<Rightarrow> producer_step s
           | PWorker i \<Rightarrow> pworker_step p i s
           | Closer \<Rightarrow> closer_step s
           | PMain \<Rightarrow> pmain_step callback s)"

inductive psp_reach ::
  "('c, 'i) MySQL \<Rightarrow> ('c, 'i, 'u) callback \<Rightarrow> ('c, 'i, 'u) psp_state
     \<Rightarrow> ('c, 'i, 'u) psp_state \<Rightarrow> bool"
  for p callback s0 where
    psp_reach_start: "psp_reach p callback s0 s0"
  | psp_reach_step:
      "psp_reach p callback s0 s \<Longrightarrow> psp_exec p callback a s = Some s' \<Longrightarrow> psp_reach p callback s0 s'"

fun psp_run ::
  "('c, 'i) MySQL \<Rightarrow> ('c, 'i, 'u) callback \<Rightarrow> paction list
     \<Rightarrow> ('c, 'i, 'u) psp_state \<Rightarrow> ('c, 'i, 'u) psp_state option" where
  "psp_run p callback [] s = Some s"
| "psp_run p callback (a # rest) s =
     (case psp_exec p callback a s of
        None \<Rightarrow> None
      | Some s' \<Rightarrow> psp_run p callback rest s')"

section \<open>mysql\_stream.go: GenerateStream\<close>

text \<open>
  The sink is an \<open>io.Writer\<close> of the caller: \<open>Write\<close> is a function from the
  sink's state and the bytes to the error (if any) and the sink's state afterwards.
  Each loop of \<open>GenerateStream\<close> is a recursive function that returns at the first
  failed write. \<open>fmt.Sprintf\<close> with \<open>%s\<close> verbs on strings is concatenation.
\<close>

type_synonym 'w writer = "'w \<Rightarrow> string \<Rightarrow> error option \<times> 'w"

fun generate_indexes ::
  "('c, 'i) MySQL \<Rightarrow> 'w writer \<Rightarrow> string \<Rightarrow> 'i list \<Rightarrow> 'w \<Rightarrow> error option \<times> 'w" where
  "generate_indexes p Write name [] w = (None, w)"
| "generate_indexes p Write name (index # rest) w =
     (let sql = generateIndexSQL p name index in
      case Write w (sql @ '';\<newline>'') of
        (Some err, w') \<Rightarrow> (Some err, w')
      | (None, w') \<Rightarrow> generate_indexes p Write name rest w')"

fun generate_tables ::
  "('c, 'i) MySQL \<Rightarrow> 'w writer \<Rightarrow> ('c, 'i) Table list \<Rightarrow> 'w \<Rightarrow> error option \<times> 'w" where
  "generate_tables p Write [] w = (None, w)"
| "generate_tables p Write (table # rest) w =
     (let sql = generateTableSQL p table in
      case Write w (sql @ '';\<newline>\<newline>'') of
        (Some err, w') \<Rightarrow> (Some err, w')
      | (None, w') \<Rightarrow>
          (case generate_indexes p Write (Table_Name table) (Table_Indexes table) w' of
             (Some err, w'') \<Rightarrow> (Some err, w'')
           | (None, w'') \<Rightarrow> generate_tables p Write rest w''))"

definition view_sql :: "View \<Rightarrow> string" where
  "view_sql view = ''CREATE VIEW '' @ View_Name view @ '' AS '' @ View_Definition view"

fun generate_views :: "'w writer \<Rightarrow> View list \<Rightarrow> 'w \<Rightarrow> error option \<times> 'w" where
  "generate_views Write [] w = (None, w)"
| "generate_views Write (view # rest) w =
     (let sql = view_sql view in
      case Write w (sql @ '';\<newline>\<newline>'') of
        (Some err, w') \<Rightarrow> (Some err, w')
      | (None, w') \<Rightarrow> generate_views Write rest w')"

text \<open>The inner loop over the parameters: \<open>i\<close> is the index, \<open>sql\<close> the text so far.\<close>

fun parameters_sql :: "nat \<Rightarrow> Parameter list \<Rightarrow> string \<Rightarrow> string" where
  "parameters_sql i [] sql = sql"
| "parameters_sql i (param # rest) sql =
     parameters_sql (Suc i) rest
       ((if i > 0 then sql @ '', '' else sql)
          @ Parameter_Name param @ '' '' @ Parameter_DataType param)"

definition function_sql :: "Function \<Rightarrow> string" where
  "function_sql function =
     parameters_sql 0 (Function_Parameters function)
       (''CREATE FUNCTION '' @ Function_Name function @ ''('')
     @ '') RETURNS '' @ Function_Returns function @ ''\<newline>'' @ Function_Body function"

definition procedure_sql :: "Function \<Rightarrow> string" where
  "procedure_sql function =
     parameters_sql 0 (Function_Parameters function)
       (''CREATE PROCEDURE '' @ Function_Name function @ ''('')
     @ '')\<newline>'' @ Function_Body function"

fun generate_functions :: "'w writer \<Rightarrow> Function list \<Rightarrow> 'w \<Rightarrow> error option \<times> 'w" where
  "generate_functions Write [] w = (None, w)"
| "generate_functions Write (function # rest) w =
     (if \<not> Function_IsProc function then
        (let sql = function_sql function in
         case Write w (sql @ '';\<newline>\<newline>'') of
           (Some err, w') \<Rightarrow> (Some err, w')
         | (None, w') \<Rightarrow> generate_functions Write rest w')
      else generate_functions Write rest w)"

fun generate_procedures :: "'w writer \<Rightarrow> Function list \<Rightarrow> 'w \<Rightarrow> error option \<times> 'w" where
  "generate_procedures Write [] w = (None, w)"
| "generate_procedures Write (function # rest) w =
     (if Function_IsProc function then
        (let sql = procedure_sql function in
         case Write w (sql @ '';\<newline>\<newline>'') of
           (Some err, w') \<Rightarrow> (Some err, w')
         | (None, w') \<Rightarrow> generate_procedures Write rest w')
      else generate_procedures Write rest w)"

definition trigger_sql :: "Trigger \<Rightarrow> string" where
  "trigger_sql trigger =
     ''CREATE TRIGGER '' @ Trigger_Name trigger @ '' '' @ Trigger_Timing trigger @ '' ''
       @ Trigger_Event trigger @ '' ON '' @ Trigger_Table trigger @ ''\<newline>''
       @ Trigger_Body trigger"

fun generate_triggers :: "'w writer \<Rightarrow> Trigger list \<Rightarrow> 'w \<Rightarrow> error option \<times> 'w" where
  "generate_triggers Write [] w = (None, w)"
| "generate_triggers Write (trigger # rest) w =
     (let sql = trigger_sql trigger in
      case Write w (sql @ '';\<newline>\<newline>'') of
        (Some err, w') \<Rightarrow> (Some err, w')
      | (None, w') \<Rightarrow> generate_triggers Write rest w')"

definition GenerateStream ::
  "('c, 'i) MySQL \<Rightarrow> ('c, 'i) Schema \<Rightarrow> 'w writer \<Rightarrow> 'w \<Rightarrow> error option \<times> 'w" where
  "GenerateStream p schema Write w =
     (case generate_tables p Write (Tables schema) w of
        (Some err, w1) \<Rightarrow> (Some err, w1)
      | (None, w1) \<Rightarrow>
     (case generate_views Write (Views schema) w1 of
        (Some err, w2) \<Rightarrow> (Some err, w2)
      | (None, w2) \<Rightarrow>
     (case generate_functions Write (Functions schema) w2 of
        (Some err, w3) \<Rightarrow> (Some err, w3)
      | (None, w3) \<Rightarrow>
     (case generate_procedures Write (Functions schema) w3 of
        (Some err, w4) \<Rightarrow> (Some err, w4)
      | (None, w4) \<Rightarrow> generate_triggers Write (Triggers schema) w4))))"

text \<open>
  The order of emission in the words of the specification: every table followed
  at once by its own indexes, then the views, then the functions that are not
  procedures, then the procedures, then the triggers, each text followed by its
  terminator. \<open>write_all\<close> hands a list of texts to the sink, one \<open>Write\<close> each,
  and stops at the first failure.
\<close>

definition emission_order :: "('c, 'i) MySQL \<Rightarrow> ('c, 'i) Schema \<Rightarrow> string list" where
  "emission_order p schema =
     concat (map (\<lambda>table.
         (generateTableSQL p table @ '';\<newline>\<newline>'')
           # map (\<lambda>index. generateIndexSQL p (Table_Name table) index @ '';\<newline>'')
               (Table_Indexes table))
       (Tables schema))
     @ map (\<lambda>view. view_sql view @ '';\<newline>\<newline>'') (Views schema)
     @ map (\<lambda>function. function_sql function @ '';\<newline>\<newline>'')
         (filter (\<lambda>function. \<not> Function_IsProc function) (Functions schema))
     @ map (\<lambda>function. procedure_sql function @ '';\<newline>\<newline>'')
         (filter Function_IsProc (Functions schema))
     @ map (\<lambda>trigger. trigger_sql trigger @ '';\<newline>\<newline>'') (Triggers schema)"

fun write_all :: "'w writer \<Rightarrow> string list \<Rightarrow> 'w \<Rightarrow> error option \<times> 'w" where
  "write_all Write [] w = (None, w)"
| "write_all Write (text # rest) w =
     (case Write w text of
        (Some err, w') \<Rightarrow> (Some err, w')
      | (None, w') \<Rightarrow> write_all Write rest w')"

section \<open>The batch processor: construction and configuration\<close>

text \<open>
  \<open>Workers\<close>, \<open>BatchSize\<close> and \<open>Timeout\<close> are Go \<open>int\<close> and
  \<open>time.Duration\<close> values (the code only compares them with zero and hands them to
  \<open>make\<close>, so no arithmetic can overflow). A \<open>nil\<close> pointer or function is
  \<open>None\<close>. The memory optimizer is held by its state \<open>'m\<close>; the error handler
  is a function on the state \<open>'h\<close> of whoever owns it. The mutex \<open>mu\<close> is not a
  field of the model: every method below that takes it runs as one step.
\<close>

record ('m, 'h) BatchConfig =
  BatchSize :: int
  Workers :: int
  Timeout :: int
  MemOptimizer :: "'m option"
  ErrorHandler :: "(error \<Rightarrow> 'h \<Rightarrow> 'h) option"

record ('s, 'm, 'h) BatchProcessor =
  batchSize :: int
  workers :: int
  queue :: "'s chan"
  timeout :: int
  memOptimizer :: "'m option"
  errorHandler :: "error \<Rightarrow> 'h \<Rightarrow> 'h"
  workerPool :: "unit chan"
  stopped :: bool

text \<open>\<open>time.Second\<close> in nanoseconds; \<open>NumCPU\<close> is what \<open>runtime.NumCPU()\<close> returns.\<close>

definition Second :: int where
  "Second = 1000000000"

definition NewBatchProcessor ::
  "int \<Rightarrow> ('m, 'h) BatchConfig \<Rightarrow> panic + ('s, 'm, 'h) BatchProcessor" where
  "NewBatchProcessor NumCPU config =
     (let config = (if Workers config = 0 then config\<lparr>Workers := NumCPU\<rparr> else config);
          config = (if BatchSize config = 0 then config\<lparr>BatchSize := 1000\<rparr> else config);
          config = (if Timeout config = 0 then config\<lparr>Timeout := 30 * Second\<rparr> else config);
          config = (if ErrorHandler config = None
                    then config\<lparr>ErrorHandler := Some (\<lambda>err h. h)\<rparr> else config)
      in case makechan (BatchSize config) of
           Inl pn \<Rightarrow> Inl pn
         | Inr q \<Rightarrow>
        (case makechan (Workers config) of
           Inl pn \<Rightarrow> Inl pn
         | Inr pool \<Rightarrow>
             Inr \<lparr>batchSize = BatchSize config,
                  workers = Workers config,
                  queue = q,
                  timeout = Timeout config,
                  memOptimizer = MemOptimizer config,
                  errorHandler = (case ErrorHandler config of Some f \<Rightarrow> f | None \<Rightarrow> (\<lambda>err h. h)),
                  workerPool = pool,
                  stopped = False\<rparr>))"

text \<open>
  \<open>Stop\<close> returns the panic it raises, if any, and the processor afterwards: on a
  closed queue the flag is already set when \<open>close\<close> panics.
\<close>

definition Stop :: "('s, 'm, 'h) BatchProcessor \<Rightarrow> panic option \<times> ('s, 'm, 'h) BatchProcessor" where
  "Stop bp =
     (if \<not> stopped bp then
        (let bp = bp\<lparr>stopped := True\<rparr> in
         case close_chan (queue bp) of
           Inl pn \<Rightarrow> (Some pn, bp)
         | Inr q \<Rightarrow> (None, bp\<lparr>queue := q\<rparr>))
      else (None, bp))"

definition isStopped :: "('s, 'm, 'h) BatchProcessor \<Rightarrow> bool" where
  "isStopped bp = stopped bp"

definition SetTimeout :: "int \<Rightarrow> ('s, 'm, 'h) BatchProcessor \<Rightarrow> ('s, 'm, 'h) BatchProcessor" where
  "SetTimeout d bp = bp\<lparr>timeout := d\<rparr>"

definition SetBatchSize :: "int \<Rightarrow> ('s, 'm, 'h) BatchProcessor \<Rightarrow> ('s, 'm, 'h) BatchProcessor" where
  "SetBatchSize n bp = bp\<lparr>batchSize := n\<rparr>"

definition SetErrorHandler ::
  "(error \<Rightarrow> 'h \<Rightarrow> 'h) \<Rightarrow> ('s, 'm, 'h) BatchProcessor \<Rightarrow> ('s, 'm, 'h) BatchProcessor" where
  "SetErrorHandler handler bp = bp\<lparr>errorHandler := handler\<rparr>"

section \<open>The batch processor: processStatement\<close>

text \<open>
  \<open>GetBuffer\<close> and \<open>PutBuffer\<close> are methods of \<open>*MemoryOptimizer\<close>, declared
  outside the files at hand; they are parameters of the model, on the optimizer's
  state \<open>'m\<close> and buffers \<open>'b\<close>.
\<close>

record ('m, 'b) MemoryOptimizer =
  GetBuffer :: "'m \<Rightarrow> 'b \<times> 'm"
  PutBuffer :: "'b \<Rightarrow> 'm \<Rightarrow> 'm"

text \<open>
  The handler returns an error (or \<open>nil\<close>) or panics. The events record, in order,
  what a worker does with the buffers and the handler. A \<open>select\<close> is resolved by
  naming the case that fires; a case that is not ready cannot be named.
\<close>

datatype hresult = HReturn "error option" | HPanic

datatype ('s, 'b) event = GetBufferEv 'b | HandlerEv 's | PutBufferEv 'b

datatype sel = CaseCtx | CaseSend | CaseRecv | CaseErr | CaseSlot | CaseDefault

text \<open>
  \<open>ps_enter\<close> is lines 145 to 148, run once the slot is held: take a buffer if an
  optimizer is configured. \<open>ps_exit\<close> is the deferred calls in the order Go runs
  them: \<open>PutBuffer\<close> first, then the receive from \<open>workerPool\<close>.
  \<open>processStatement\<close> is the whole function as one worker runs it; \<open>None\<close> means
  that it blocks (or that the named case is not ready).
\<close>

definition ps_enter ::
  "('m, 'b) MemoryOptimizer \<Rightarrow> ('s, 'm, 'h) BatchProcessor
     \<Rightarrow> 'b option \<times> ('s, 'm, 'h) BatchProcessor \<times> ('s, 'b) event list" where
  "ps_enter M bp =
     (case memOptimizer bp of
        None \<Rightarrow> (None, bp, [])
      | Some m \<Rightarrow>
          (let (buffer, m') = GetBuffer M m
           in (Some buffer, bp\<lparr>memOptimizer := Some m'\<rparr>, [GetBufferEv buffer])))"

definition ps_exit ::
  "('m, 'b) MemoryOptimizer \<Rightarrow> 'b option \<Rightarrow> ('s, 'm, 'h) BatchProcessor
     \<Rightarrow> (('s, 'm, 'h) BatchProcessor \<times> ('s, 'b) event list) option" where
  "ps_exit M held bp =
     (let (bp, evs) =
        (case held of
           None \<Rightarrow> (bp, [])
         | Some buffer \<Rightarrow>
             (case memOptimizer bp of
                None \<Rightarrow> (bp, [])
              | Some m \<Rightarrow> (bp\<lparr>memOptimizer := Some (PutBuffer M buffer m)\<rparr>, [PutBufferEv buffer])))
      in case recv (workerPool bp) of
           RecvBlocks \<Rightarrow> None
         | RecvClosed \<Rightarrow> Some (bp, evs)
         | Received x pool \<Rightarrow> Some (bp\<lparr>workerPool := pool\<rparr>, evs))"

definition processStatement ::
  "('m, 'b) MemoryOptimizer \<Rightarrow> ('s \<Rightarrow> hresult) \<Rightarrow> error option \<Rightarrow> sel
     \<Rightarrow> ('s, 'm, 'h) BatchProcessor \<Rightarrow> 's
     \<Rightarrow> (error option outcome \<times> ('s, 'm, 'h) BatchProcessor \<times> ('s, 'b) event list) option" where
  "processStatement M handler ctx choice bp stmt =
     (case choice of
        CaseSlot \<Rightarrow>
          (case send (workerPool bp) () of
             SendBlocks \<Rightarrow> None
           | SendPanics \<Rightarrow> Some (Panicked SendOnClosedChannel, bp, [])
           | Sent pool \<Rightarrow>
               (let (held, bp1, evs1) = ps_enter M (bp\<lparr>workerPool := pool\<rparr>);
                    result = handler stmt
                in case ps_exit M held bp1 of
                     None \<Rightarrow> None
                   | Some (bp2, evs2) \<Rightarrow>
                       Some (case result of HReturn err \<Rightarrow> Returned err | HPanic \<Rightarrow> Panicked HandlerPanic,
                             bp2, evs1 @ [HandlerEv stmt] @ evs2)))
      | CaseCtx \<Rightarrow>
          (case ctx of
             None \<Rightarrow> None
           | Some err \<Rightarrow> Some (Returned (Some err), bp, []))
      | _ \<Rightarrow> None)"


section \<open>The batch processor: ProcessBatch\<close>

text \<open>
  \<open>ProcessBatch\<close> runs the calling goroutine and \<open>bp.workers\<close> worker goroutines.
  The model is an interleaving of their steps on one shared state: the processor, the
  place each goroutine has reached, the local channel \<open>errChan\<close>, the context, the
  state of the error handler's owner, the events so far, and whether the program has
  crashed (a panic in a worker goroutine ends the process). One call runs at a time;
  other goroutines calling \<open>Stop\<close> or the setters during the call are not part of
  the model. After a panic of the calling goroutine the workers may still step (the
  caller's caller may recover).

  The calling goroutine is at the entry with its items, in the sending loop with the
  items still to send, at \<open>wg.Wait()\<close>, at the last \<open>select\<close>, or done with what
  it returned or the panic it raised. A worker is at its \<open>select\<close>, inside
  \<open>processStatement\<close> waiting for a slot, running the handler (holding the buffer
  it took, if any), or has returned.
\<close>

datatype 's main_pc =
    MEntry "'s list"
  | MSend "'s list"
  | MWait
  | MFinal
  | MDone "error option outcome"

datatype ('s, 'b) worker_pc =
    WSelect
  | WAcquire 's
  | WHandler 's "'b option"
  | WExit

record ('s, 'm, 'b, 'h) pb_state =
  bp :: "('s, 'm, 'h) BatchProcessor"
  main :: "'s main_pc"
  ws :: "('s, 'b) worker_pc list"
  errChan :: "error chan"
  ctx :: "error option"
  hstate :: 'h
  events :: "('s, 'b) event list"
  crashed :: bool

text \<open>The state in which a call starts; \<open>parent\<close> is the context handed in.\<close>

definition pb_init ::
  "('s, 'm, 'h) BatchProcessor \<Rightarrow> error option \<Rightarrow> 's list \<Rightarrow> 'h \<Rightarrow> ('s, 'm, 'b, 'h) pb_state" where
  "pb_init processor parent stmts h =
     \<lparr>bp = processor, main = MEntry stmts, ws = [],
      errChan = \<lparr>buf = [], cap = 0, closed = False\<rparr>,
      ctx = parent, hstate = h, events = [], crashed = False\<rparr>"

text \<open>
  Leaving the function runs the deferred \<open>cancel()\<close>. \<open>close_and_return\<close> is
  \<open>close(bp.queue); return err\<close> of lines 112 and 116.
\<close>

definition return_main :: "error option \<Rightarrow> ('s, 'm, 'b, 'h) pb_state \<Rightarrow> ('s, 'm, 'b, 'h) pb_state" where
  "return_main result s = s\<lparr>main := MDone (Returned result), ctx := cancel (ctx s)\<rparr>"

definition panic_main :: "panic \<Rightarrow> ('s, 'm, 'b, 'h) pb_state \<Rightarrow> ('s, 'm, 'b, 'h) pb_state" where
  "panic_main pn s = s\<lparr>main := MDone (Panicked pn), ctx := cancel (ctx s)\<rparr>"

definition close_and_return :: "error \<Rightarrow> ('s, 'm, 'b, 'h) pb_state \<Rightarrow> ('s, 'm, 'b, 'h) pb_state" where
  "close_and_return err s =
     (case close_chan (queue (bp s)) of
        Inl pn \<Rightarrow> panic_main pn s
      | Inr q \<Rightarrow> return_main (Some err) (s\<lparr>bp := (bp s)\<lparr>queue := q\<rparr>\<rparr>))"

text \<open>Lines 70 to 106: the stopped check, the timeout context, the error channel, the workers.\<close>

definition main_entry :: "'s list \<Rightarrow> ('s, 'm, 'b, 'h) pb_state \<Rightarrow> ('s, 'm, 'b, 'h) pb_state option" where
  "main_entry stmts s =
     (if isStopped (bp s) then Some (s\<lparr>main := MDone (Returned (Some ErrBatchProcessorStopped))\<rparr>)
      else
        (let s = s\<lparr>ctx := WithTimeout (ctx s) (timeout (bp s))\<rparr> in
         case makechan (workers (bp s)) of
           Inl pn \<Rightarrow> Some (panic_main pn s)
         | Inr c \<Rightarrow>
             Some (s\<lparr>errChan := c,
                     ws := replicate (nat (workers (bp s))) WSelect,
                     main := MSend stmts\<rparr>)))"

text \<open>Lines 109 to 119: one iteration of the sending loop, a \<open>select\<close> of three cases.\<close>

definition main_send ::
  "'s \<Rightarrow> 's list \<Rightarrow> sel \<Rightarrow> ('s, 'm, 'b, 'h) pb_state \<Rightarrow> ('s, 'm, 'b, 'h) pb_state option" where
  "main_send stmt rest choice s =
     (case choice of
        CaseCtx \<Rightarrow>
          (case ctx s of
             None \<Rightarrow> None
           | Some err \<Rightarrow> Some (close_and_return err s))
      | CaseSend \<Rightarrow>
          (case send (queue (bp s)) stmt of
             SendBlocks \<Rightarrow> None
           | SendPanics \<Rightarrow> Some (panic_main SendOnClosedChannel s)
           | Sent q \<Rightarrow> Some (s\<lparr>bp := (bp s)\<lparr>queue := q\<rparr>, main := MSend rest\<rparr>))
      | CaseErr \<Rightarrow>
          (case recv (errChan s) of
             Received err c \<Rightarrow> Some (close_and_return err (s\<lparr>errChan := c\<rparr>))
           | RecvBlocks \<Rightarrow> None
           | RecvClosed \<Rightarrow> None)
      | CaseRecv \<Rightarrow> None
      | CaseSlot \<Rightarrow> None
      | CaseDefault \<Rightarrow> None)"

text \<open>Line 121: \<open>close(bp.queue)\<close> after the loop.\<close>

definition main_close :: "('s, 'm, 'b, 'h) pb_state \<Rightarrow> ('s, 'm, 'b, 'h) pb_state option" where
  "main_close s =
     (case close_chan (queue (bp s)) of
        Inl pn \<Rightarrow> Some (panic_main pn s)
      | Inr q \<Rightarrow> Some (s\<lparr>bp := (bp s)\<lparr>queue := q\<rparr>, main := MWait\<rparr>))"

text \<open>Line 122: \<open>wg.Wait()\<close> returns once every worker has returned.\<close>

definition main_wait :: "('s, 'm, 'b, 'h) pb_state \<Rightarrow> ('s, 'm, 'b, 'h) pb_state option" where
  "main_wait s = (if list_all (\<lambda>w. w = WExit) (ws s) then Some (s\<lparr>main := MFinal\<rparr>) else None)"

text \<open>Lines 124 to 131: the last \<open>select\<close>, with a \<open>default\<close> case.\<close>

definition main_final :: "sel \<Rightarrow> ('s, 'm, 'b, 'h) pb_state \<Rightarrow> ('s, 'm, 'b, 'h) pb_state option" where
  "main_final choice s =
     (case choice of
        CaseErr \<Rightarrow>
          (case recv (errChan s) of
             Received err c \<Rightarrow> Some (return_main (Some err) (s\<lparr>errChan := c\<rparr>))
           | RecvBlocks \<Rightarrow> None
           | RecvClosed \<Rightarrow> None)
      | CaseCtx \<Rightarrow>
          (case ctx s of
             None \<Rightarrow> None
           | Some err \<Rightarrow> Some (return_main (Some err) s))
      | CaseDefault \<Rightarrow>
          if buf (errChan s) = [] \<and> ctx s = None then Some (return_main None s) else None
      | CaseSend \<Rightarrow> None
      | CaseRecv \<Rightarrow> None
      | CaseSlot \<Rightarrow> None)"

definition main_step :: "sel \<Rightarrow> ('s, 'm, 'b, 'h) pb_state \<Rightarrow> ('s, 'm, 'b, 'h) pb_state option" where
  "main_step choice s =
     (case main s of
        MEntry stmts \<Rightarrow> main_entry stmts s
      | MSend [] \<Rightarrow> main_close s
      | MSend (stmt # rest) \<Rightarrow> main_send stmt rest choice s
      | MWait \<Rightarrow> main_wait s
      | MFinal \<Rightarrow> main_final choice s
      | MDone result \<Rightarrow> None)"

text \<open>
  Lines 96 to 100: a worker hands its error to \<open>errChan\<close> if there is room and to
  the error handler otherwise.
\<close>

definition report :: "error \<Rightarrow> ('s, 'm, 'b, 'h) pb_state \<Rightarrow> ('s, 'm, 'b, 'h) pb_state" where
  "report err s =
     (case send (errChan s) err of
        Sent c \<Rightarrow> s\<lparr>errChan := c\<rparr>
      | SendBlocks \<Rightarrow> s\<lparr>hstate := errorHandler (bp s) err (hstate s)\<rparr>
      | SendPanics \<Rightarrow> s\<lparr>crashed := True\<rparr>)"

text \<open>Lines 88 to 94: the worker's \<open>select\<close> on the context and the queue.\<close>

definition worker_select ::
  "nat \<Rightarrow> sel \<Rightarrow> ('s, 'm, 'b, 'h) pb_state \<Rightarrow> ('s, 'm, 'b, 'h) pb_state option" where
  "worker_select i choice s =
     (case choice of
        CaseCtx \<Rightarrow>
          (case ctx s of
             None \<Rightarrow> None
           | Some err \<Rightarrow> Some (s\<lparr>ws := (ws s)[i := WExit]\<rparr>))
      | CaseRecv \<Rightarrow>
          (case recv (queue (bp s)) of
             RecvBlocks \<Rightarrow> None
           | RecvClosed \<Rightarrow> Some (s\<lparr>ws := (ws s)[i := WExit]\<rparr>)
           | Received stmt q \<Rightarrow>
               Some (s\<lparr>bp := (bp s)\<lparr>queue := q\<rparr>, ws := (ws s)[i := WAcquire stmt]\<rparr>))
      | CaseSend \<Rightarrow> None
      | CaseErr \<Rightarrow> None
      | CaseSlot \<Rightarrow> None
      | CaseDefault \<Rightarrow> None)"

text \<open>
  Lines 137 to 150: \<open>processStatement\<close> up to the call of the handler, in worker
  \<open>i\<close>; the handler is running while the worker is at \<open>WHandler\<close>.
\<close>

definition worker_acquire ::
  "('m, 'b) MemoryOptimizer \<Rightarrow> nat \<Rightarrow> 's \<Rightarrow> sel
     \<Rightarrow> ('s, 'm, 'b, 'h) pb_state \<Rightarrow> ('s, 'm, 'b, 'h) pb_state option" where
  "worker_acquire M i stmt choice s =
     (case choice of
        CaseSlot \<Rightarrow>
          (case send (workerPool (bp s)) () of
             SendBlocks \<Rightarrow> None
           | SendPanics \<Rightarrow> Some (s\<lparr>ws := (ws s)[i := WExit], crashed := True\<rparr>)
           | Sent pool \<Rightarrow>
               (let (held, bp1, evs) = ps_enter M ((bp s)\<lparr>workerPool := pool\<rparr>)
                in Some (s\<lparr>bp := bp1, ws := (ws s)[i := WHandler stmt held],
                           events := events s @ evs @ [HandlerEv stmt]\<rparr>)))
      | CaseCtx \<Rightarrow>
          (case ctx s of
             None \<Rightarrow> None
           | Some err \<Rightarrow> Some (report err (s\<lparr>ws := (ws s)[i := WExit]\<rparr>)))
      | CaseSend \<Rightarrow> None
      | CaseRecv \<Rightarrow> None
      | CaseErr \<Rightarrow> None
      | CaseDefault \<Rightarrow> None)"

text \<open>
  The handler of worker \<open>i\<close> comes back: the deferred calls of \<open>processStatement\<close>
  run, then lines 95 to 102 look at the error.
\<close>

definition worker_finish ::
  "('m, 'b) MemoryOptimizer \<Rightarrow> ('s \<Rightarrow> hresult) \<Rightarrow> nat \<Rightarrow> 's \<Rightarrow> 'b option
     \<Rightarrow> ('s, 'm, 'b, 'h) pb_state \<Rightarrow> ('s, 'm, 'b, 'h) pb_state option" where
  "worker_finish M handler i stmt held s =
     (case ps_exit M held (bp s) of
        None \<Rightarrow> None
      | Some (bp2, evs) \<Rightarrow>
          (let s = s\<lparr>bp := bp2, events := events s @ evs\<rparr>
           in case handler stmt of
                HPanic \<Rightarrow> Some (s\<lparr>ws := (ws s)[i := WExit], crashed := True\<rparr>)
              | HReturn None \<Rightarrow> Some (s\<lparr>ws := (ws s)[i := WSelect]\<rparr>)
              | HReturn (Some err) \<Rightarrow> Some (report err (s\<lparr>ws := (ws s)[i := WExit]\<rparr>))))"

definition worker_step ::
  "('m, 'b) MemoryOptimizer \<Rightarrow> ('s \<Rightarrow> hresult) \<Rightarrow> nat \<Rightarrow> sel
     \<Rightarrow> ('s, 'm, 'b, 'h) pb_state \<Rightarrow> ('s, 'm, 'b, 'h) pb_state option" where
  "worker_step M handler i choice s =
     (if i < length (ws s) then
        (case ws s ! i of
           WSelect \<Rightarrow> worker_select i choice s
         | WAcquire stmt \<Rightarrow> worker_acquire M i stmt choice s
         | WHandler stmt held \<Rightarrow> worker_finish M handler i stmt held s
         | WExit \<Rightarrow> None)
      else None)"

text \<open>
  A step of the whole: the context becomes done (its deadline passes or its parent is
  cancelled), or the calling goroutine or worker \<open>i\<close> takes its next step.
  \<open>pb_reach\<close> is reachability by such steps and \<open>pb_run\<close> runs a given schedule.
\<close>

datatype action = CtxDone error | Main sel | Worker nat sel

definition pb_exec ::
  "('m, 'b) MemoryOptimizer \<Rightarrow> ('s \<Rightarrow> hresult) \<Rightarrow> action
     \<Rightarrow> ('s, 'm, 'b, 'h) pb_state \<Rightarrow> ('s, 'm, 'b, 'h) pb_state option" where
  "pb_exec M handler a s =
     (if crashed s then None
      else case a of
             CtxDone err \<Rightarrow>
               if ctx s = None \<and> (err = DeadlineExceeded \<or> err = Canceled)
               then Some (s\<lparr>ctx := Some err\<rparr>) else None
           | Main choice \<Rightarrow> main_step choice s
           | Worker i choice \<Rightarrow> worker_step M handler i choice s)"

inductive pb_reach ::
  "('m, 'b) MemoryOptimizer \<Rightarrow> ('s \<Rightarrow> hresult) \<Rightarrow> ('s, 'm, 'b, 'h) pb_state
     \<Rightarrow> ('s, 'm, 'b, 'h) pb_state \<Rightarrow> bool"
  for M handler s0 where
    pb_reach_start: "pb_reach M handler s0 s0"
  | pb_reach_step: "pb_reach M handler s0 s \<Longrightarrow> pb_exec M handler a s = Some s' \<Longrightarrow> pb_reach M handler s0 s'"

fun pb_run ::
  "('m, 'b) MemoryOptimizer \<Rightarrow> ('s \<Rightarrow> hresult) \<Rightarrow> action list
     \<Rightarrow> ('s, 'm, 'b, 'h) pb_state \<Rightarrow> ('s, 'm, 'b, 'h) pb_state option" where
  "pb_run M handler [] s = Some s"
| "pb_run M handler (a # rest) s =
     (case pb_exec M handler a s of
        None \<Rightarrow> None
      | Some s' \<Rightarrow> pb_run M handler rest s')"

text \<open>The number of handler invocations in progress.\<close>

fun is_running :: "('s, 'b) worker_pc \<Rightarrow> bool" where
  "is_running (WHandler stmt held) = True"
| "is_running w = False"

definition running :: "('s, 'm, 'b, 'h) pb_state \<Rightarrow> nat" where
  "running s = length (filter is_running (ws s))"

section \<open>Concrete inputs for evaluation\<close>

text \<open>
  A stand-in dialect, used only to evaluate the engines on concrete inputs: each parse
  method appends one entity named after the statement's text, and the renderers
  print the name.
\<close>

definition toy_mysql :: "(unit, string) MySQL" where
  "toy_mysql = \<lparr>
     parseTables = (\<lambda>statement schema. (None, schema\<lparr>Tables := Tables schema @
        [\<lparr>Table_Name = statement, Table_Columns = (), Table_Indexes = []\<rparr>]\<rparr>)),
     parseViews = (\<lambda>statement schema. (None, schema\<lparr>Views := Views schema @
        [\<lparr>View_Name = statement, View_Definition = []\<rparr>]\<rparr>)),
     parseFunctions = (\<lambda>statement schema. (None, schema\<lparr>Functions := Functions schema @
        [\<lparr>Function_Name = statement, Function_Parameters = [], Function_Returns = [],
          Function_Body = [], Function_IsProc = False\<rparr>]\<rparr>)),
     parseTriggers = (\<lambda>statement schema. (None, schema\<lparr>Triggers := Triggers schema @
        [\<lparr>Trigger_Name = statement, Trigger_Timing = [], Trigger_Event = [],
          Trigger_Table = [], Trigger_Body = []\<rparr>]\<rparr>)),
     generateTableSQL = (\<lambda>table. ''CREATE TABLE '' @ Table_Name table),
     generateIndexSQL = (\<lambda>name index. ''CREATE INDEX '' @ index @ '' ON '' @ name)\<rparr>"

text \<open>A callback that counts its invocations and never fails.\<close>

definition counting_callback :: "(unit, string, nat) callback" where
  "counting_callback u obj = (None, Suc u)"

text \<open>A statement of the fifth kind, already trimmed.\<close>

definition trigger_statement :: string where
  "trigger_statement = ''CREATE TRIGGER trg BEFORE INSERT ON t FOR EACH ROW SET NEW.x = 1''"

text \<open>
  A stand-in memory optimizer (a free list of numbered buffers), a configuration, the
  processor \<open>NewBatchProcessor\<close> makes of it on a machine with four CPUs, and a
  handler that fails on the item \<open>bad\<close>.
\<close>

definition toy_optimizer :: "(nat list, nat) MemoryOptimizer" where
  "toy_optimizer =
     \<lparr>GetBuffer = (\<lambda>free. case free of [] \<Rightarrow> (0, []) | buffer # rest \<Rightarrow> (buffer, rest)),
      PutBuffer = (\<lambda>buffer free. buffer # free)\<rparr>"

definition toy_config :: "(nat list, nat) BatchConfig" where
  "toy_config =
     \<lparr>BatchSize = 2, Workers = 1, Timeout = 0, MemOptimizer = Some [7, 8], ErrorHandler = None\<rparr>"

definition toy_processor :: "(string, nat list, nat) BatchProcessor" where
  "toy_processor =
     \<lparr>batchSize = 2, workers = 1, queue = \<lparr>buf = [], cap = 2, closed = False\<rparr>,
      timeout = 30 * Second, memOptimizer = Some [7, 8], errorHandler = (\<lambda>err h. h),
      workerPool = \<lparr>buf = [], cap = 1, closed = False\<rparr>, stopped = False\<rparr>"

definition toy_handler :: "string \<Rightarrow> hresult" where
  "toy_handler stmt =
     (if stmt = ''bad'' then HReturn (Some (Errorf ''bad statement'')) else HReturn None)"

section \<open>Predicates of the proofs\<close>

text \<open>The statement kinds the sequential engine recognises, on the upper-cased text.\<close>

definition recognized :: "string \<Rightarrow> bool" where
  "recognized upper =
     (HasPrefix upper ''CREATE TABLE'' \<or> HasPrefix upper ''CREATE VIEW'' \<or>
      HasPrefix upper ''CREATE FUNCTION'' \<or> HasPrefix upper ''CREATE PROCEDURE'' \<or>
      HasPrefix upper ''CREATE TRIGGER'')"

text \<open>
  A read that the loop skips: a statement whose trimmed, upper-cased text is of none
  of the five kinds, for the given library functions.
\<close>

fun unrecognized_with :: "(string \<Rightarrow> string) \<Rightarrow> (string \<Rightarrow> string) \<Rightarrow> read_result \<Rightarrow> bool" where
  "unrecognized_with trimSpace toUpper (Statement raw) = (\<not> recognized (toUpper (trimSpace raw)))"
| "unrecognized_with trimSpace toUpper (Failure err) = False"

text \<open>
  In the parallel engine, every statement in flight is a trimmed statement of the
  input, and every object in flight or handed to the callback is what
  \<open>parseStatement\<close> made of such a statement.
\<close>

definition in_input :: "read_result list \<Rightarrow> string \<Rightarrow> bool" where
  "in_input reads statement = (\<exists>raw. Statement raw \<in> set reads \<and> statement = TrimSpace raw)"

definition from_input :: "('c, 'i) MySQL \<Rightarrow> read_result list \<Rightarrow> ('c, 'i) SchemaObject \<Rightarrow> bool" where
  "from_input p reads obj =
     (\<exists>raw. Statement raw \<in> set reads \<and> parseStatement p (TrimSpace raw) = Inr (Some obj))"

fun held_from_input :: "('c, 'i) MySQL \<Rightarrow> read_result list \<Rightarrow> ('c, 'i) pworker_pc \<Rightarrow> bool" where
  "held_from_input p reads (PWSendResult obj) = from_input p reads obj"
| "held_from_input p reads w = True"

definition psp_inv :: "('c, 'i) MySQL \<Rightarrow> read_result list \<Rightarrow> ('c, 'i, 'u) psp_state \<Rightarrow> bool" where
  "psp_inv p reads s =
     (set (reader s) \<subseteq> set reads \<and>
      (\<forall>statement. producer s = PSend statement \<longrightarrow> in_input reads statement) \<and>
      (\<forall>statement \<in> set (buf (statements s)). in_input reads statement) \<and>
      (\<forall>obj \<in> set (buf (results s)). from_input p reads obj) \<and>
      list_all (held_from_input p reads) (pworkers s) \<and>
      (\<forall>obj \<in> set (invocations s). from_input p reads obj))"

text \<open>
  What no step of a \<open>ProcessBatch\<close> call changes in the processor: the worker
  count, the stopped flag, the recorded batch size, the timeout and the capacities of
  its two channels; and a closed queue stays closed.
\<close>

definition frame :: "('s, 'm, 'h) BatchProcessor \<Rightarrow> ('s, 'm, 'h) BatchProcessor \<Rightarrow> bool" where
  "frame b b' =
     (workers b' = workers b \<and> stopped b' = stopped b \<and> batchSize b' = batchSize b \<and>
      timeout b' = timeout b \<and> cap (queue b') = cap (queue b) \<and>
      cap (workerPool b') = cap (workerPool b) \<and>
      (closed (queue b) \<longrightarrow> closed (queue b')))"

text \<open>What \<open>processStatement\<close> returns for a result of the handler.\<close>

definition hresult_outcome :: "hresult \<Rightarrow> error option outcome" where
  "hresult_outcome r = (case r of HReturn err \<Rightarrow> Returned err | HPanic \<Rightarrow> Panicked HandlerPanic)"

text \<open>The states of a call on a stopped processor.\<close>

definition stopped_call ::
  "('s, 'm, 'h) BatchProcessor \<Rightarrow> 's list \<Rightarrow> ('s, 'm, 'b, 'h) pb_state \<Rightarrow> bool" where
  "stopped_call processor stmts s =
     (events s = [] \<and> ws s = [] \<and> bp s = processor \<and>
      (main s = MEntry stmts \<or> main s = MDone (Returned (Some ErrBatchProcessorStopped))))"

text \<open>
  \<open>after_loop\<close>: the caller has left the sending loop without a panic.
  \<open>entered\<close>: the caller has passed the entry without a panic. \<open>first_call\<close>
  holds throughout a call on a processor that is not stopped, \<open>second_call\<close>
  throughout a later call with items on a processor whose queue is closed.
\<close>

fun after_loop :: "'s main_pc \<Rightarrow> bool" where
  "after_loop MWait = True"
| "after_loop MFinal = True"
| "after_loop (MDone (Returned result)) = True"
| "after_loop pc = False"

fun entered :: "'s main_pc \<Rightarrow> bool" where
  "entered (MEntry stmts) = False"
| "entered (MDone (Panicked pn)) = False"
| "entered pc = True"

definition first_call :: "('s, 'm, 'b, 'h) pb_state \<Rightarrow> bool" where
  "first_call s =
     (\<not> stopped (bp s) \<and> (entered (main s) \<longrightarrow> 0 \<le> workers (bp s)) \<and>
      (after_loop (main s) \<longrightarrow> closed (queue (bp s))))"

definition second_call :: "'s list \<Rightarrow> ('s, 'm, 'b, 'h) pb_state \<Rightarrow> bool" where
  "second_call stmts s =
     (\<not> stopped (bp s) \<and> 0 \<le> workers (bp s) \<and> closed (queue (bp s)) \<and>
      (main s = MEntry stmts \<or> main s = MSend stmts \<or>
       main s = MDone (Panicked SendOnClosedChannel) \<or>
       main s = MDone (Panicked CloseOfClosedChannel)))"

text \<open>
  The slots taken in \<open>workerPool\<close> are those of the handlers in progress, and no
  worker exists before the caller has passed the entry.
\<close>

definition slots_held :: "('s, 'm, 'b, 'h) pb_state \<Rightarrow> bool" where
  "slots_held s =
     (length (buf (workerPool (bp s))) = running s \<and>
      (\<forall>stmts. main s = MEntry stmts \<longrightarrow> ws s = []))"

section \<open>Properties of the statement parsers\<close>

text \<open>
  C10. \<open>parseProcedureStatement\<close> and \<open>parseFunctionStatement\<close> run the same
  \<open>parseFunctions\<close> on a fresh temporary schema and return its first function; the
  only difference is the message of the error returned when \<open>parseFunctions\<close>
  succeeds and leaves no function in the schema. The state left in
  \<open>p.mysql.schema\<close> is the same in every case.
\<close>

theorem parseProcedure_parseFunction_same:
  "snd (parseProcedureStatement p statement) = snd (parseFunctionStatement p statement) \<and>
   (if fst (parseFunctions p statement emptySchema) = None \<and>
       Functions (snd (parseFunctions p statement emptySchema)) = []
    then fst (parseFunctionStatement p statement) = Inl (Errorf ''no function found in statement'') \<and>
         fst (parseProcedureStatement p statement) = Inl (Errorf ''no procedure found in statement'')
    else fst (parseProcedureStatement p statement) = fst (parseFunctionStatement p statement))"
  by (simp add: parseProcedureStatement_def parseFunctionStatement_def Let_def
      split: prod.splits option.splits)

section \<open>Properties of the sequential engine\<close>

lemma ParseStream_body_with_ascii:
  "ParseStream_body_with TrimSpace ToUpper p callback raw u calls = ParseStream_body p callback raw u calls"
  by (simp add: ParseStream_body_with_def ParseStream_body_def)

lemma ParseStream_with_ascii:
  "ParseStream_with TrimSpace ToUpper p callback reads u calls = ParseStream p callback reads u calls"
proof (induction reads arbitrary: u calls)
  case Nil
  show ?case by simp
next
  case (Cons r reads)
  then show ?case
    by (cases r) (simp_all add: ParseStream_body_with_ascii split: prod.splits flow.splits)
qed

lemma ParseStream_body_with_unrecognized:
  "\<not> recognized (toUpper (trimSpace raw)) \<Longrightarrow>
   ParseStream_body_with trimSpace toUpper p callback raw u calls = (Continue, u, calls)"
  by (simp add: ParseStream_body_with_def recognized_def Let_def)

text \<open>
  C7. Whatever \<open>strings.TrimSpace\<close> and \<open>strings.ToUpper\<close> compute, a
  statement whose trimmed, upper-cased text begins with none of the five prefixes is
  skipped by \<open>ParseStream\<close>: the loop goes on with the rest of the stream, the
  callback is not invoked and no error is returned. On an input made only of such
  statements the callback is never invoked and the result is \<open>nil\<close>.
\<close>

theorem ParseStream_skips_unrecognized:
  "(\<not> recognized (toUpper (trimSpace raw)) \<longrightarrow>
      ParseStream_with trimSpace toUpper p callback (Statement raw # rest) u calls
        = ParseStream_with trimSpace toUpper p callback rest u calls)
   \<and> (list_all (unrecognized_with trimSpace toUpper) reads \<longrightarrow>
      ParseStream_with trimSpace toUpper p callback reads u calls = (None, u, calls))"
proof
  show "\<not> recognized (toUpper (trimSpace raw)) \<longrightarrow>
      ParseStream_with trimSpace toUpper p callback (Statement raw # rest) u calls
        = ParseStream_with trimSpace toUpper p callback rest u calls"
    by (simp add: ParseStream_body_with_unrecognized)
next
  have "list_all (unrecognized_with trimSpace toUpper) reads \<Longrightarrow>
      ParseStream_with trimSpace toUpper p callback reads u calls = (None, u, calls)"
  proof (induction reads)
    case Nil
    show ?case by simp
  next
    case (Cons r reads)
    then show ?case
      by (cases r) (simp_all add: ParseStream_body_with_unrecognized)
  qed
  then show "list_all (unrecognized_with trimSpace toUpper) reads \<longrightarrow>
      ParseStream_with trimSpace toUpper p callback reads u calls = (None, u, calls)"
    by blast
qed

lemma select_1_unrecognized: "\<not> recognized (ToUpper (TrimSpace ''SELECT 1''))"
  by (simp add: recognized_def HasPrefix_def ToUpper_def TrimSpace_def toUpperByte_def isSpace_def)

lemma drop_unrecognized: "\<not> recognized (ToUpper (TrimSpace '' drop table t ''))"
  by (simp add: recognized_def HasPrefix_def ToUpper_def TrimSpace_def toUpperByte_def isSpace_def)

theorem ParseStream_skips_unrecognized_witness:
  "\<not> recognized (ToUpper (TrimSpace ''SELECT 1'')) \<and>
   ParseStream toy_mysql counting_callback [Statement ''SELECT 1'', Statement ''CREATE VIEW v''] 0 []
     = ParseStream toy_mysql counting_callback [Statement ''CREATE VIEW v''] 0 [] \<and>
   list_all (unrecognized_with TrimSpace ToUpper) [Statement ''SELECT 1'', Statement '' drop table t ''] \<and>
   ParseStream toy_mysql counting_callback [Statement ''SELECT 1'', Statement '' drop table t ''] 0 []
     = (None, 0, [])"
proof -
  have one: "\<not> recognized (ToUpper (TrimSpace ''SELECT 1''))"
    by (rule select_1_unrecognized)
  have all: "list_all (unrecognized_with TrimSpace ToUpper)
      [Statement ''SELECT 1'', Statement '' drop table t '']"
    by (simp add: select_1_unrecognized drop_unrecognized)
  show ?thesis
    using ParseStream_skips_unrecognized [of ToUpper TrimSpace "''SELECT 1''" toy_mysql
        counting_callback "[Statement ''CREATE VIEW v'']" 0 "[]"
        "[Statement ''SELECT 1'', Statement '' drop table t '']", unfolded ParseStream_with_ascii]
      one all
    by blast
qed

section \<open>Properties of the parallel engine\<close>

lemma psp_exec_cases [consumes 1, case_names producer worker closer main]:
  assumes "psp_exec p callback a s = Some s'"
  obtains
    "producer_step s = Some s'"
  | i where "i < length (pworkers s)" "pworker_step p i s = Some s'"
  | "closer_step s = Some s'"
  | "pmain_step callback s = Some s'"
  using assms
  by (auto simp: psp_exec_def pworker_step_def split: if_splits paction.splits)

lemma list_all_update: "list_all P xs \<Longrightarrow> P y \<Longrightarrow> list_all P (xs[i := y])"
  using set_update_subset_insert [of xs i y] by (auto simp: list_all_iff)

lemma producer_step_inv:
  assumes "producer_step s = Some s'" and "psp_inv p reads s"
  shows "psp_inv p reads s'"
proof (cases "producer s")
  case PRead
  show ?thesis
  proof (cases "reader s")
    case Nil
    with PRead assms show ?thesis
      by (auto simp: producer_step_def close_statements_def psp_inv_def close_chan_def split: if_splits)
  next
    case (Cons r rest)
    show ?thesis
    proof (cases r)
      case (Statement raw)
      with PRead Cons assms show ?thesis
        by (auto simp: producer_step_def psp_inv_def in_input_def Let_def split: if_splits)
    next
      case (Failure err)
      with PRead Cons assms show ?thesis
        by (auto simp: producer_step_def psp_inv_def)
    qed
  qed
next
  case (PSendErr err)
  with assms show ?thesis
    by (auto simp: producer_step_def close_statements_def psp_inv_def close_chan_def send_def
        split: if_splits sent.splits)
next
  case (PSend statement)
  with assms show ?thesis
    by (auto simp: producer_step_def psp_inv_def send_def split: if_splits sent.splits)
next
  case PExit
  with assms show ?thesis by (simp add: producer_step_def)
qed

lemma list_all_replicate: "P x \<Longrightarrow> list_all P (replicate n x)"
  by (induction n) auto

lemma recv_Received: "recv c = Received x c' \<Longrightarrow> buf c = x # buf c' \<and> closed c' = closed c"
  by (auto simp: recv_def split: list.splits if_splits)

lemma send_Sent: "send c x = Sent c' \<Longrightarrow> buf c' = buf c @ [x] \<and> closed c' = closed c"
  by (auto simp: send_def split: if_splits)

lemma pworker_step_inv:
  assumes "pworker_step p i s = Some s'" and "i < length (pworkers s)" and "psp_inv p reads s"
  shows "psp_inv p reads s'"
proof (cases "pworkers s ! i")
  case PWRange
  show ?thesis
  proof (cases "recv (statements s)")
    case RecvBlocks
    with PWRange assms show ?thesis by (simp add: pworker_step_def)
  next
    case RecvClosed
    with PWRange assms show ?thesis
      by (auto simp: pworker_step_def psp_inv_def simp: list_all_update)
  next
    case (Received statement c)
    then have b: "buf (statements s) = statement # buf c" by (simp add: recv_Received)
    with assms(3) have st: "in_input reads statement" and rest: "\<forall>x \<in> set (buf c). in_input reads x"
      by (auto simp: psp_inv_def)
    have new: "from_input p reads obj" if "parseStatement p statement = Inr (Some obj)" for obj
      using st that by (auto simp: in_input_def from_input_def)
    show ?thesis
    proof (cases "parseStatement p statement")
      case (Inl err)
      with PWRange Received assms rest show ?thesis
        by (auto simp: pworker_step_def psp_inv_def simp: list_all_update)
    next
      case (Inr r)
      show ?thesis
      proof (cases r)
        case None
        with Inr PWRange Received assms rest show ?thesis
          by (auto simp: pworker_step_def psp_inv_def)
      next
        case (Some obj)
        with Inr PWRange Received assms rest new [of obj] show ?thesis
          by (auto simp: pworker_step_def psp_inv_def simp: list_all_update)
      qed
    qed
  qed
next
  case (PWSendErr err)
  with assms show ?thesis
    by (auto simp: pworker_step_def psp_inv_def split: sent.splits simp: list_all_update)
next
  case (PWSendResult obj)
  with assms(2) have "PWSendResult obj \<in> set (pworkers s)"
    by (metis nth_mem)
  with assms(3) have f: "from_input p reads obj" by (auto simp: psp_inv_def list_all_iff)
  show ?thesis
  proof (cases "send (results s) obj")
    case (Sent c)
    then have "buf c = buf (results s) @ [obj]" by (simp add: send_Sent)
    with Sent f PWSendResult assms show ?thesis
      by (auto simp: pworker_step_def psp_inv_def list_all_update)
  qed (use PWSendResult assms in \<open>auto simp: pworker_step_def psp_inv_def list_all_update\<close>)
next
  case PWExit
  with assms show ?thesis by (simp add: pworker_step_def)
qed

lemma closer_step_inv: "closer_step s = Some s' \<Longrightarrow> psp_inv p reads s \<Longrightarrow> psp_inv p reads s'"
  by (auto simp: closer_step_def psp_inv_def split: if_splits)

lemma pmain_step_inv:
  assumes "pmain_step callback s = Some s'" and "psp_inv p reads s"
  shows "psp_inv p reads s'"
proof (cases "pmain s")
  case PMRange
  show ?thesis
  proof (cases "recv (results s)")
    case (Received obj c)
    then have "buf (results s) = obj # buf c" by (simp add: recv_Received)
    with PMRange Received assms show ?thesis
      by (auto simp: pmain_step_def psp_inv_def split: prod.splits option.splits)
  qed (use PMRange assms in \<open>auto simp: pmain_step_def psp_inv_def\<close>)
next
  case PMCheck
  with assms show ?thesis
    by (auto simp: pmain_step_def psp_inv_def split: received.splits)
next
  case (PMDone r)
  with assms show ?thesis by (simp add: pmain_step_def)
qed

lemma psp_reach_inv:
  assumes "psp_reach p callback s0 s" and "psp_inv p reads s0"
  shows "psp_inv p reads s"
  using assms
proof (induction rule: psp_reach.induct)
  case psp_reach_start
  then show ?case by simp
next
  case (psp_reach_step s a s')
  from psp_reach_step.hyps(2) psp_reach_step.IH [OF psp_reach_step.prems] show ?case
    by (cases rule: psp_exec_cases)
      (auto intro: producer_step_inv pworker_step_inv closer_step_inv pmain_step_inv)
qed

lemma ParseStreamParallel_start_inv:
  "ParseStreamParallel_start reads u workerCount = Inr s0 \<Longrightarrow> psp_inv p reads s0"
  by (auto simp: ParseStreamParallel_start_def psp_inv_def makechan_def list_all_replicate
      split: if_splits)

lemma trigger_statement_unparsed: "parseStatement p (TrimSpace trigger_statement) = Inr None"
  by (simp add: parseStatement_def trigger_statement_def TrimSpace_def isSpace_def ToUpper_def
      toUpperByte_def HasPrefix_def)

lemma trigger_statement_sequential:
  "ParseStream toy_mysql counting_callback [Statement trigger_statement] 0 [] =
     (None, 1, [\<lparr>Type = TriggerObject,
                 Data = TriggerData \<lparr>Trigger_Name = trigger_statement, Trigger_Timing = [],
                   Trigger_Event = [], Trigger_Table = [], Trigger_Body = []\<rparr>\<rparr>])"
  by (simp add: ParseStream_body_def parseTriggerStatement_def toy_mysql_def counting_callback_def
      invoke_def emptySchema_def trigger_statement_def TrimSpace_def isSpace_def ToUpper_def
      toUpperByte_def HasPrefix_def)

text \<open>
  C1. The claim fails on the code at a stream holding one \<open>CREATE TRIGGER\<close>
  statement. \<open>ParseStream\<close> invokes the callback once, on the trigger. The
  \<open>switch\<close> of \<open>parseStatement\<close> has no case for \<open>CREATE TRIGGER\<close>, so in
  \<open>ParseStreamParallel\<close>, for every dialect, callback and number of workers and
  under every schedule, the callback is never invoked on that stream.
\<close>

theorem ParseStreamParallel_drops_trigger:
  "ParseStream toy_mysql counting_callback [Statement trigger_statement] 0 [] =
     (None, 1, [\<lparr>Type = TriggerObject,
                 Data = TriggerData \<lparr>Trigger_Name = trigger_statement, Trigger_Timing = [],
                   Trigger_Event = [], Trigger_Table = [], Trigger_Body = []\<rparr>\<rparr>]) \<and>
   (ParseStreamParallel_start [Statement trigger_statement] u workerCount = Inr s0 \<and>
    psp_reach p callback s0 s \<longrightarrow> invocations s = [])"
proof (intro conjI impI)
  show "ParseStream toy_mysql counting_callback [Statement trigger_statement] 0 [] =
     (None, 1, [\<lparr>Type = TriggerObject,
                 Data = TriggerData \<lparr>Trigger_Name = trigger_statement, Trigger_Timing = [],
                   Trigger_Event = [], Trigger_Table = [], Trigger_Body = []\<rparr>\<rparr>])"
    by (rule trigger_statement_sequential)
next
  assume a: "ParseStreamParallel_start [Statement trigger_statement] u workerCount = Inr s0 \<and>
    psp_reach p callback s0 s"
  then have "psp_inv p [Statement trigger_statement] s0"
    by (auto intro: ParseStreamParallel_start_inv)
  with a have "psp_inv p [Statement trigger_statement] s"
    by (auto intro: psp_reach_inv)
  then have "\<forall>obj \<in> set (invocations s). from_input p [Statement trigger_statement] obj"
    by (simp add: psp_inv_def)
  then show "invocations s = []"
    by (cases "invocations s") (auto simp: from_input_def trigger_statement_unparsed)
qed

lemma psp_reach_exec_first:
  assumes "psp_reach p callback s1 s" and "psp_exec p callback a s0 = Some s1"
  shows "psp_reach p callback s0 s"
  using assms
  by (induction rule: psp_reach.induct) (auto intro: psp_reach.intros)

lemma psp_run_reach: "psp_run p callback acts s0 = Some s \<Longrightarrow> psp_reach p callback s0 s"
proof (induction acts arbitrary: s0)
  case Nil
  then show ?case by (simp add: psp_reach_start)
next
  case (Cons a acts)
  then show ?case
    by (auto split: option.splits intro: psp_reach_exec_first)
qed

lemmas psp_defs = psp_exec_def producer_step_def pworker_step_def closer_step_def pmain_step_def
  close_statements_def send_def recv_def close_chan_def makechan_def ParseStreamParallel_start_def

theorem ParseStreamParallel_drops_trigger_witness:
  "\<exists>s0 s. ParseStreamParallel_start [Statement trigger_statement] (0::nat) 1 = Inr s0 \<and>
     psp_run toy_mysql counting_callback
       [Producer, Producer, PWorker 0, Producer, PWorker 0, Closer, PMain, PMain] s0 = Some s \<and>
     pmain s = PMDone None \<and> ustate s = 0 \<and> invocations s = []"
proof -
  have u: "parseStatement toy_mysql trigger_statement = Inr None"
    using trigger_statement_unparsed [of toy_mysql]
    by (simp add: trigger_statement_def TrimSpace_def isSpace_def)
  have t: "TrimSpace trigger_statement = trigger_statement" "trigger_statement \<noteq> []"
    by (simp_all add: trigger_statement_def TrimSpace_def isSpace_def)
  have "\<exists>s0 s. ParseStreamParallel_start [Statement trigger_statement] (0::nat) 1 = Inr s0 \<and>
     psp_run toy_mysql counting_callback
       [Producer, Producer, PWorker 0, Producer, PWorker 0, Closer, PMain, PMain] s0 = Some s \<and>
     pmain s = PMDone None \<and> ustate s = 0"
    by (simp add: psp_defs u t)
  then obtain s0 s where s: "ParseStreamParallel_start [Statement trigger_statement] (0::nat) 1 = Inr s0"
     "psp_run toy_mysql counting_callback
       [Producer, Producer, PWorker 0, Producer, PWorker 0, Closer, PMain, PMain] s0 = Some s"
     "pmain s = PMDone None" "ustate s = 0"
    by blast
  have "invocations s = []"
    using ParseStreamParallel_drops_trigger [of 0 1 s0 toy_mysql counting_callback s]
      s(1) psp_run_reach [OF s(2)] by blast
  with s show ?thesis by blast
qed

section \<open>Properties of GenerateStream\<close>

lemma write_all_append:
  "write_all Write (xs @ ys) w =
     (case write_all Write xs w of
        (Some err, w') \<Rightarrow> (Some err, w')
      | (None, w') \<Rightarrow> write_all Write ys w')"
  by (induction xs arbitrary: w) (auto split: prod.splits option.splits)

lemma generate_indexes_write_all:
  "generate_indexes p Write name indexes w =
     write_all Write (map (\<lambda>index. generateIndexSQL p name index @ '';\<newline>'') indexes) w"
  by (induction indexes arbitrary: w) (auto split: prod.splits option.splits)

lemma generate_tables_write_all:
  "generate_tables p Write tables w =
     write_all Write (concat (map (\<lambda>table.
         (generateTableSQL p table @ '';\<newline>\<newline>'')
           # map (\<lambda>index. generateIndexSQL p (Table_Name table) index @ '';\<newline>'')
               (Table_Indexes table)) tables)) w"
  by (induction tables arbitrary: w)
    (auto simp: write_all_append generate_indexes_write_all split: prod.splits option.splits)

lemma generate_views_write_all:
  "generate_views Write views w =
     write_all Write (map (\<lambda>view. view_sql view @ '';\<newline>\<newline>'') views) w"
  by (induction views arbitrary: w) (auto split: prod.splits option.splits)

lemma generate_functions_write_all:
  "generate_functions Write funs w =
     write_all Write (map (\<lambda>function. function_sql function @ '';\<newline>\<newline>'')
       (filter (\<lambda>function. \<not> Function_IsProc function) funs)) w"
  by (induction funs arbitrary: w) (auto split: prod.splits option.splits)

lemma generate_procedures_write_all:
  "generate_procedures Write funs w =
     write_all Write (map (\<lambda>function. procedure_sql function @ '';\<newline>\<newline>'')
       (filter Function_IsProc funs)) w"
  by (induction funs arbitrary: w) (auto split: prod.splits option.splits)

lemma generate_triggers_write_all:
  "generate_triggers Write triggers w =
     write_all Write (map (\<lambda>trigger. trigger_sql trigger @ '';\<newline>\<newline>'') triggers) w"
  by (induction triggers arbitrary: w) (auto split: prod.splits option.splits)

lemma write_all_recording: "write_all (\<lambda>w text. (None, w @ [text])) texts w = (None, w @ texts)"
  by (induction texts arbitrary: w) auto

text \<open>
  C6. For every schema and every sink, \<open>GenerateStream\<close> does exactly the writes of
  the fixed order, one after the other, up to the first write that fails: each table
  followed at once by its own indexes, then the views, the functions with
  \<open>IsProc = false\<close>, the procedures with \<open>IsProc = true\<close> and the triggers, each
  text followed by its terminator. On a sink that records every write and never fails,
  the record is that list and the result is \<open>nil\<close>.
\<close>

theorem GenerateStream_fixed_order:
  "GenerateStream p schema Write w = write_all Write (emission_order p schema) w \<and>
   GenerateStream p schema (\<lambda>w text. (None, w @ [text])) [] = (None, emission_order p schema)"
proof -
  have eq: "GenerateStream p schema W w' = write_all W (emission_order p schema) w'"
    for W :: "'d writer" and w'
    unfolding GenerateStream_def emission_order_def
    by (simp add: write_all_append generate_tables_write_all generate_views_write_all
        generate_functions_write_all generate_procedures_write_all generate_triggers_write_all
        split: prod.splits option.splits)
  show ?thesis
    using eq [of Write w] eq [of "\<lambda>w text. (None, w @ [text])" "[]"]
    by (simp add: write_all_recording)
qed

section \<open>Properties of the batch processor: the steps of a call\<close>

lemma pb_exec_cases [consumes 1, case_names ctx_done entry close send wait final select acquire finish]:
  assumes "pb_exec M handler a s = Some s'"
  obtains
    err where "ctx s = None" "s' = s\<lparr>ctx := Some err\<rparr>"
  | stmts where "main s = MEntry stmts" "main_entry stmts s = Some s'"
  | "main s = MSend []" "main_close s = Some s'"
  | stmt rest c where "main s = MSend (stmt # rest)" "main_send stmt rest c s = Some s'"
  | "main s = MWait" "main_wait s = Some s'"
  | c where "main s = MFinal" "main_final c s = Some s'"
  | i c where "i < length (ws s)" "ws s ! i = WSelect" "worker_select i c s = Some s'"
  | i stmt c where "i < length (ws s)" "ws s ! i = WAcquire stmt" "worker_acquire M i stmt c s = Some s'"
  | i stmt held where "i < length (ws s)" "ws s ! i = WHandler stmt held"
      "worker_finish M handler i stmt held s = Some s'"
  using assms
  by (auto simp: pb_exec_def main_step_def worker_step_def
      split: if_splits action.splits main_pc.splits list.splits worker_pc.splits)

lemma pb_reach_exec_first:
  assumes "pb_reach M handler s1 s" and "pb_exec M handler a s0 = Some s1"
  shows "pb_reach M handler s0 s"
  using assms
  by (induction rule: pb_reach.induct) (auto intro: pb_reach.intros)

lemma pb_run_reach: "pb_run M handler acts s0 = Some s \<Longrightarrow> pb_reach M handler s0 s"
proof (induction acts arbitrary: s0)
  case Nil
  then show ?case by (simp add: pb_reach_start)
next
  case (Cons a acts)
  then show ?case
    by (auto split: option.splits intro: pb_reach_exec_first)
qed

lemmas step_defs = pb_exec_def main_step_def main_entry_def main_send_def main_close_def
  main_wait_def main_final_def worker_step_def worker_select_def worker_acquire_def
  worker_finish_def report_def return_main_def panic_main_def close_and_return_def
  ps_enter_def ps_exit_def send_def recv_def close_chan_def makechan_def
  WithTimeout_def cancel_def isStopped_def pb_init_def

lemma report_bp: "bp (report err s) = bp s"
  by (simp add: report_def split: sent.splits)

lemma report_ws: "ws (report err s) = ws s"
  by (simp add: report_def split: sent.splits)

lemma report_main: "main (report err s) = main s"
  by (simp add: report_def split: sent.splits)

lemma close_and_return_ws: "ws (close_and_return err s) = ws s"
  by (simp add: close_and_return_def panic_main_def return_main_def split: sum.splits)

lemma worker_select_main: "worker_select i c s = Some s' \<Longrightarrow> main s' = main s"
  by (auto simp: worker_select_def split: sel.splits option.splits received.splits)

lemma worker_acquire_main: "worker_acquire M i stmt c s = Some s' \<Longrightarrow> main s' = main s"
  by (auto simp: worker_acquire_def report_main split: sel.splits option.splits sent.splits prod.splits)

lemma worker_finish_main: "worker_finish M handler i stmt held s = Some s' \<Longrightarrow> main s' = main s"
  by (auto simp: worker_finish_def report_main Let_def split: option.splits hresult.splits prod.splits)

lemma frame_refl: "frame b b"
  by (simp add: frame_def)

lemma frame_trans: "frame a b \<Longrightarrow> frame b c \<Longrightarrow> frame a c"
  by (simp add: frame_def)

lemma close_and_return_frame: "frame (bp s) (bp (close_and_return err s))"
  by (auto simp: close_and_return_def frame_def panic_main_def return_main_def close_chan_def
      split: sum.splits)

lemma ps_enter_frame: "ps_enter M b = (held, b', evs) \<Longrightarrow> frame b b'"
  by (auto simp: ps_enter_def frame_def split: option.splits prod.splits)

lemma ps_exit_frame: "ps_exit M held b = Some (b', evs) \<Longrightarrow> frame b b'"
  by (auto simp: ps_exit_def frame_def recv_def Let_def
      split: option.splits prod.splits received.splits list.splits if_splits)

lemma pb_exec_frame:
  assumes "pb_exec M handler a s = Some s'"
  shows "frame (bp s) (bp s')"
  using assms
proof (cases rule: pb_exec_cases)
  case (ctx_done err)
  then show ?thesis by (simp add: frame_def)
next
  case (entry stmts)
  then show ?thesis
    by (auto simp: main_entry_def frame_def panic_main_def Let_def split: if_splits sum.splits)
next
  case close
  then show ?thesis
    by (auto simp: main_close_def frame_def panic_main_def close_chan_def split: if_splits sum.splits)
next
  case (send stmt rest c)
  then show ?thesis
    using close_and_return_frame [of s] close_and_return_frame [of "s\<lparr>errChan := c'\<rparr>" for c']
    by (auto simp: main_send_def panic_main_def send_def
       split: sel.splits option.splits sent.splits received.splits if_splits) (auto simp: frame_def)
next
  case wait
  then show ?thesis by (auto simp: main_wait_def frame_def split: if_splits)
next
  case (final c)
  then show ?thesis
    by (auto simp: main_final_def frame_def return_main_def
        split: sel.splits option.splits received.splits if_splits)
next
  case (select i c)
  then show ?thesis
    by (auto simp: worker_select_def frame_def recv_def
        split: sel.splits option.splits received.splits list.splits if_splits)
next
  case (acquire i stmt c)
  then show ?thesis
    by (auto simp: worker_acquire_def report_bp send_def dest!: ps_enter_frame
        split: sel.splits option.splits sent.splits prod.splits if_splits) (auto simp: frame_def)
next
  case (finish i stmt held)
  then show ?thesis
    by (auto simp: worker_finish_def report_bp Let_def dest!: ps_exit_frame
        split: option.splits hresult.splits prod.splits)
qed

lemma pb_reach_frame:
  assumes "pb_reach M handler s0 s"
  shows "frame (bp s0) (bp s)"
  using assms
  by (induction rule: pb_reach.induct) (auto intro: frame_refl frame_trans dest: pb_exec_frame)

section \<open>Properties of the batch processor: construction and configuration\<close>

lemma NewBatchProcessor_unfold:
  "NewBatchProcessor NumCPU config =
     (case makechan (if BatchSize config = 0 then 1000 else BatchSize config) of
        Inl pn \<Rightarrow> Inl pn
      | Inr q \<Rightarrow>
     (case makechan (if Workers config = 0 then NumCPU else Workers config) of
        Inl pn \<Rightarrow> Inl pn
      | Inr pool \<Rightarrow>
          Inr \<lparr>batchSize = (if BatchSize config = 0 then 1000 else BatchSize config),
               workers = (if Workers config = 0 then NumCPU else Workers config),
               queue = q,
               timeout = (if Timeout config = 0 then 30 * Second else Timeout config),
               memOptimizer = MemOptimizer config,
               errorHandler = (case ErrorHandler config of Some f \<Rightarrow> f | None \<Rightarrow> (\<lambda>err h. h)),
               workerPool = pool,
               stopped = False\<rparr>))"
  by (cases "Workers config = 0"; cases "BatchSize config = 0"; cases "Timeout config = 0";
      cases "ErrorHandler config")
    (simp_all add: NewBatchProcessor_def Let_def split: sum.splits)

lemma NewBatchProcessor_Inr:
  assumes "NewBatchProcessor NumCPU config = Inr processor"
  shows "processor =
           \<lparr>batchSize = (if BatchSize config = 0 then 1000 else BatchSize config),
            workers = (if Workers config = 0 then NumCPU else Workers config),
            queue = \<lparr>buf = [], cap = nat (if BatchSize config = 0 then 1000 else BatchSize config),
                      closed = False\<rparr>,
            timeout = (if Timeout config = 0 then 30 * Second else Timeout config),
            memOptimizer = MemOptimizer config,
            errorHandler = (case ErrorHandler config of Some f \<Rightarrow> f | None \<Rightarrow> (\<lambda>err h. h)),
            workerPool = \<lparr>buf = [], cap = nat (if Workers config = 0 then NumCPU else Workers config),
                           closed = False\<rparr>,
            stopped = False\<rparr>"
    and "\<not> (if BatchSize config = 0 then 1000 else BatchSize config) < 0"
    and "\<not> (if Workers config = 0 then NumCPU else Workers config) < 0"
  using assms unfolding NewBatchProcessor_unfold makechan_def
  by (simp_all split: if_splits)

lemma toy_processor_new: "NewBatchProcessor 4 toy_config = Inr toy_processor"
  by (simp add: NewBatchProcessor_unfold toy_config_def toy_processor_def makechan_def)



text \<open>
  C5. The claim fails on the code: \<open>SetBatchSize\<close> stores its argument in the field
  \<open>batchSize\<close> and nothing else; the queue is made once, by
  \<open>NewBatchProcessor\<close>, and no step of a later \<open>ProcessBatch\<close> call changes its
  capacity.
\<close>

theorem SetBatchSize_queue_capacity:
  "batchSize (SetBatchSize n processor) = n \<and>
   queue (SetBatchSize n processor) = queue processor \<and>
   (pb_reach M handler (pb_init (SetBatchSize n processor) parent stmts h) s \<longrightarrow>
      cap (queue (bp s)) = cap (queue processor))"
proof -
  have "cap (queue (bp s)) = cap (queue processor)"
    if "pb_reach M handler (pb_init (SetBatchSize n processor) parent stmts h) s"
    using pb_reach_frame [OF that] by (simp add: frame_def pb_init_def SetBatchSize_def)
  then show ?thesis by (simp add: SetBatchSize_def)
qed

theorem SetBatchSize_queue_capacity_witness:
  "NewBatchProcessor 4 toy_config = Inr toy_processor \<and> cap (queue toy_processor) = 2 \<and>
   batchSize (SetBatchSize 5 toy_processor) = 5 \<and>
   (\<exists>s. pb_run toy_optimizer toy_handler [Main CaseDefault, Main CaseSend, Main CaseSend]
          (pb_init (SetBatchSize 5 toy_processor) None [''a'', ''b'', ''c'', ''d''] (0::nat)) = Some s \<and>
        cap (queue (bp s)) = 2 \<and> buf (queue (bp s)) = [''a'', ''b''] \<and>
        pb_exec toy_optimizer toy_handler (Main CaseSend) s = None)"
proof -
  have "\<exists>s. pb_run toy_optimizer toy_handler [Main CaseDefault, Main CaseSend, Main CaseSend]
          (pb_init (SetBatchSize 5 toy_processor) None [''a'', ''b'', ''c'', ''d''] (0::nat)) = Some s \<and>
        buf (queue (bp s)) = [''a'', ''b''] \<and>
        pb_exec toy_optimizer toy_handler (Main CaseSend) s = None"
    by (simp add: step_defs toy_processor_def SetBatchSize_def Second_def)
  then obtain s where s: "pb_run toy_optimizer toy_handler [Main CaseDefault, Main CaseSend, Main CaseSend]
          (pb_init (SetBatchSize 5 toy_processor) None [''a'', ''b'', ''c'', ''d''] (0::nat)) = Some s"
      "buf (queue (bp s)) = [''a'', ''b'']" "pb_exec toy_optimizer toy_handler (Main CaseSend) s = None"
    by blast
  have "cap (queue (bp s)) = cap (queue toy_processor)"
    using SetBatchSize_queue_capacity [of 5 toy_processor toy_optimizer toy_handler None
        "[''a'', ''b'', ''c'', ''d'']" 0 s] pb_run_reach [OF s(1)] by blast
  moreover have "cap (queue toy_processor) = 2" "batchSize (SetBatchSize 5 toy_processor) = 5"
    by (simp_all add: toy_processor_def SetBatchSize_def)
  ultimately show ?thesis using s toy_processor_new by auto
qed


section \<open>Properties of the batch processor: processStatement\<close>

lemma unit_list_eq: "length (xs :: unit list) = length ys \<Longrightarrow> xs = ys"
proof (induction xs arbitrary: ys)
  case Nil
  then show ?case by simp
next
  case (Cons x xs)
  then show ?case by (cases ys) auto
qed

lemma recv_after_send:
  "send (c :: unit chan) () = Sent pool \<Longrightarrow> recv pool = Received () c"
proof -
  assume a: "send c () = Sent pool"
  then have p: "pool = c\<lparr>buf := buf c @ [()]\<rparr>"
    by (auto simp: send_def split: if_splits)
  obtain x rest where xr: "buf c @ [()] = x # rest"
    by (cases "buf c") auto
  then have "length rest = length (buf c)"
    by (metis length_Cons length_append_singleton nat.inject)
  then have "rest = buf c" by (rule unit_list_eq)
  with p xr show ?thesis by (simp add: recv_def)
qed

text \<open>
  C4. With a memory optimizer configured, a \<open>processStatement\<close> call that gets its
  slot takes a buffer, then invokes the handler, then puts that same buffer back,
  whatever the handler does (returns \<open>nil\<close>, returns an error or panics), and
  leaves the optimizer in the state after that \<open>PutBuffer\<close>. A call that does
  not invoke the handler (the context was done first) takes no buffer.
\<close>

theorem processStatement_buffer:
  assumes "memOptimizer processor = Some m"
  shows "(send (workerPool processor) () = Sent pool \<longrightarrow>
            processStatement M handler cx CaseSlot processor stmt =
              Some (hresult_outcome (handler stmt),
                    processor\<lparr>memOptimizer := Some (PutBuffer M (fst (GetBuffer M m)) (snd (GetBuffer M m)))\<rparr>,
                    [GetBufferEv (fst (GetBuffer M m)), HandlerEv stmt, PutBufferEv (fst (GetBuffer M m))])) \<and>
         (processStatement M handler cx choice processor stmt = Some (out, processor', evs) \<longrightarrow>
            evs = [GetBufferEv (fst (GetBuffer M m)), HandlerEv stmt, PutBufferEv (fst (GetBuffer M m))] \<or>
            evs = [] \<and> processor' = processor)"
proof (intro conjI impI)
  assume a: "send (workerPool processor) () = Sent pool"
  have r: "recv pool = Received () (workerPool processor)"
    using a by (rule recv_after_send)
  show "processStatement M handler cx CaseSlot processor stmt =
              Some (hresult_outcome (handler stmt),
                    processor\<lparr>memOptimizer := Some (PutBuffer M (fst (GetBuffer M m)) (snd (GetBuffer M m)))\<rparr>,
                    [GetBufferEv (fst (GetBuffer M m)), HandlerEv stmt, PutBufferEv (fst (GetBuffer M m))])"
    using assms a r
    by (simp add: processStatement_def ps_enter_def ps_exit_def hresult_outcome_def Let_def
        split: prod.splits hresult.splits)
next
  assume b: "processStatement M handler cx choice processor stmt = Some (out, processor', evs)"
  show "evs = [GetBufferEv (fst (GetBuffer M m)), HandlerEv stmt, PutBufferEv (fst (GetBuffer M m))] \<or>
            evs = [] \<and> processor' = processor"
  proof (cases choice)
    case CaseSlot
    show ?thesis
    proof (cases "send (workerPool processor) ()")
      case (Sent pool')
      have r: "recv pool' = Received () (workerPool processor)"
        using Sent by (rule recv_after_send)
      with assms b CaseSlot Sent show ?thesis
        by (auto simp: processStatement_def ps_enter_def ps_exit_def Let_def
            split: prod.splits hresult.splits)
    qed (use b CaseSlot in \<open>auto simp: processStatement_def\<close>)
  qed (use b in \<open>auto simp: processStatement_def split: option.splits\<close>)
qed

theorem processStatement_buffer_witness:
  "memOptimizer toy_processor = Some [7, 8] \<and>
   send (workerPool toy_processor) () = Sent \<lparr>buf = [()], cap = 1, closed = False\<rparr> \<and>
   processStatement toy_optimizer toy_handler None CaseSlot toy_processor ''bad'' =
     Some (Returned (Some (Errorf ''bad statement'')), toy_processor,
           [GetBufferEv 7, HandlerEv ''bad'', PutBufferEv 7])"
proof -
  have m: "memOptimizer toy_processor = Some [7, 8]"
    by (simp add: toy_processor_def)
  have sd: "send (workerPool toy_processor) () = Sent \<lparr>buf = [()], cap = 1, closed = False\<rparr>"
    by (simp add: toy_processor_def send_def)
  show ?thesis
    using processStatement_buffer [OF m, of "\<lparr>buf = [()], cap = 1, closed = False\<rparr>" toy_optimizer
        toy_handler None "''bad''" CaseSlot] m sd
    by (simp add: toy_optimizer_def toy_handler_def hresult_outcome_def toy_processor_def)
qed



section \<open>Properties of the batch processor: Stop\<close>

lemma Stop_returned: "Stop processor0 = (None, processor) \<Longrightarrow> stopped processor"
  by (auto simp: Stop_def Let_def split: if_splits sum.splits)

lemma stopped_call_exec:
  assumes "pb_exec M handler a s = Some s'" and "stopped processor" and "stopped_call processor stmts s"
  shows "stopped_call processor stmts s'"
  using assms
proof (cases rule: pb_exec_cases)
  case (entry stmts')
  with assms(2,3) show ?thesis
    by (auto simp: stopped_call_def main_entry_def isStopped_def)
qed (auto simp: stopped_call_def)

text \<open>
  C3. If \<open>Stop\<close> has returned, the first step of a later \<open>ProcessBatch\<close> call
  is to return \<open>ErrBatchProcessorStopped\<close>; in no state the call can reach has a
  worker been started, a handler been invoked or the processor been changed.
\<close>

theorem ProcessBatch_after_Stop:
  assumes "Stop processor0 = (None, processor)"
  shows "pb_exec M handler (Main choice) (pb_init processor parent stmts h)
           = Some ((pb_init processor parent stmts h)\<lparr>main := MDone (Returned (Some ErrBatchProcessorStopped))\<rparr>) \<and>
         (\<forall>s. pb_reach M handler (pb_init processor parent stmts h) s \<longrightarrow>
            events s = [] \<and> ws s = [] \<and> bp s = processor \<and>
            (main s = MEntry stmts \<or> main s = MDone (Returned (Some ErrBatchProcessorStopped))))"
proof -
  have st: "stopped processor" using assms by (rule Stop_returned)
  have first: "pb_exec M handler (Main choice) (pb_init processor parent stmts h)
           = Some ((pb_init processor parent stmts h)\<lparr>main := MDone (Returned (Some ErrBatchProcessorStopped))\<rparr>)"
    using st by (simp add: pb_exec_def main_step_def main_entry_def isStopped_def pb_init_def)
  have "stopped_call processor stmts s" if "pb_reach M handler (pb_init processor parent stmts h) s" for s
    using that
  proof (induction rule: pb_reach.induct)
    case pb_reach_start
    show ?case by (simp add: stopped_call_def pb_init_def)
  next
    case (pb_reach_step s a s')
    then show ?case using stopped_call_exec st by blast
  qed
  with first show ?thesis by (auto simp: stopped_call_def)
qed


lemma toy_Stop: "Stop toy_processor = (None, toy_processor\<lparr>stopped := True, queue := \<lparr>buf = [], cap = 2, closed = True\<rparr>\<rparr>)"
  by (simp add: Stop_def toy_processor_def close_chan_def Let_def)

theorem ProcessBatch_after_Stop_witness:
  "Stop toy_processor = (None, toy_processor\<lparr>stopped := True, queue := \<lparr>buf = [], cap = 2, closed = True\<rparr>\<rparr>) \<and>
   (\<exists>s. pb_run toy_optimizer toy_handler [Main CaseSend, CtxDone Canceled]
          (pb_init (toy_processor\<lparr>stopped := True, queue := \<lparr>buf = [], cap = 2, closed = True\<rparr>\<rparr>)
             None [''a'', ''b''] (0::nat)) = Some s \<and>
        main s = MDone (Returned (Some ErrBatchProcessorStopped)) \<and> events s = [] \<and> ws s = [])"
proof -
  let ?p = "toy_processor\<lparr>stopped := True, queue := \<lparr>buf = [], cap = 2, closed = True\<rparr>\<rparr>"
  have "\<exists>s. pb_run toy_optimizer toy_handler [Main CaseSend, CtxDone Canceled]
          (pb_init ?p None [''a'', ''b''] (0::nat)) = Some s \<and>
          main s = MDone (Returned (Some ErrBatchProcessorStopped))"
    by (simp add: step_defs toy_processor_def)
  then obtain s where s: "pb_run toy_optimizer toy_handler [Main CaseSend, CtxDone Canceled]
          (pb_init ?p None [''a'', ''b''] (0::nat)) = Some s"
      "main s = MDone (Returned (Some ErrBatchProcessorStopped))"
    by blast
  have "events s = [] \<and> ws s = []"
    using ProcessBatch_after_Stop [OF toy_Stop, of toy_optimizer toy_handler CaseSend None "[''a'', ''b'']" 0]
      pb_run_reach [OF s(1)] by blast
  with s toy_Stop show ?thesis by blast
qed


section \<open>Properties of the batch processor: bounded concurrency\<close>

lemma pb_exec_ws_length:
  assumes "pb_exec M handler a s = Some s'"
  shows "length (ws s') = length (ws s) \<or> length (ws s') = nat (workers (bp s))"
  using assms
proof (cases rule: pb_exec_cases)
  case (entry stmts)
  then show ?thesis
    by (auto simp: main_entry_def panic_main_def Let_def split: if_splits sum.splits)
next
  case (send stmt rest c)
  then show ?thesis
    by (auto simp: main_send_def panic_main_def close_and_return_ws
        split: sel.splits option.splits sent.splits received.splits)
next
  case (final c)
  then show ?thesis
    by (auto simp: main_final_def return_main_def split: sel.splits option.splits received.splits if_splits)
next
  case (select i c)
  then show ?thesis
    by (auto simp: worker_select_def split: sel.splits option.splits received.splits)
next
  case (acquire i stmt c)
  then show ?thesis
    by (auto simp: worker_acquire_def report_ws split: sel.splits option.splits sent.splits prod.splits)
next
  case (finish i stmt held)
  then show ?thesis
    by (auto simp: worker_finish_def report_ws Let_def split: option.splits hresult.splits prod.splits)
qed (auto simp: main_close_def main_wait_def panic_main_def split: sum.splits if_splits)

lemma pb_reach_ws_length:
  assumes "pb_reach M handler s0 s" and "length (ws s0) \<le> nat (workers (bp s0))"
  shows "length (ws s) \<le> nat (workers (bp s0))"
  using assms
proof (induction rule: pb_reach.induct)
  case pb_reach_start
  then show ?case by simp
next
  case (pb_reach_step s a s')
  have "workers (bp s) = workers (bp s0)"
    using pb_reach_frame [OF pb_reach_step.hyps(1)] by (simp add: frame_def)
  with pb_reach_step pb_exec_ws_length [OF pb_reach_step.hyps(2)] show ?case by auto
qed

lemma count_update:
  "i < length xs \<Longrightarrow>
   length (filter P (xs[i := y])) + (if P (xs ! i) then 1 else 0)
     = length (filter P xs) + (if P y then 1 else 0)"
proof (induction xs arbitrary: i)
  case Nil
  then show ?case by simp
next
  case (Cons x xs)
  then show ?case by (cases i) auto
qed

lemma running_update:
  "i < length (ws s) \<Longrightarrow>
   running (s\<lparr>ws := (ws s)[i := w]\<rparr>) + (if is_running (ws s ! i) then 1 else 0)
     = running s + (if is_running w then 1 else 0)"
  using count_update [of i "ws s" is_running w] by (simp add: running_def)

lemma slots_held_exec:
  assumes "pb_exec M handler a s = Some s'" and "slots_held s"
  shows "slots_held s'"
  using assms(1)
proof (cases rule: pb_exec_cases)
  case (ctx_done err)
  with assms(2) show ?thesis by (simp add: slots_held_def running_def)
next
  case (entry stmts)
  with assms(2) show ?thesis
    by (auto simp: slots_held_def running_def main_entry_def panic_main_def Let_def
        split: if_splits sum.splits)
next
  case close
  with assms(2) show ?thesis
    by (auto simp: slots_held_def running_def main_close_def panic_main_def split: sum.splits)
next
  case (send stmt rest c)
  with assms(2) show ?thesis
    by (auto simp: slots_held_def running_def main_send_def panic_main_def return_main_def
        close_and_return_def split: sel.splits option.splits sent.splits received.splits sum.splits)
next
  case wait
  with assms(2) show ?thesis
    by (auto simp: slots_held_def running_def main_wait_def split: if_splits)
next
  case (final c)
  with assms(2) show ?thesis
    by (auto simp: slots_held_def running_def main_final_def return_main_def
        split: sel.splits option.splits received.splits if_splits)
next
  case (select i c)
  have ne: "ws s \<noteq> []" using select(1) by auto
  from select assms(2) running_update [of i s WExit] running_update [of i s "WAcquire x" for x]
  show ?thesis
    by (auto simp: slots_held_def worker_select_def running_def
        split: sel.splits option.splits received.splits)
next
  case (acquire i stmt c)
  from acquire assms(2) running_update [of i s WExit] running_update [of i s "WHandler stmt x" for x]
  show ?thesis
    by (auto simp: slots_held_def worker_acquire_def ps_enter_def report_def send_def running_def
        split: sel.splits option.splits sent.splits prod.splits if_splits)
next
  case (finish i stmt held)
  have "ws s ! i \<in> set (ws s)" using finish(1) by simp
  moreover have "is_running (ws s ! i)" using finish(2) by simp
  ultimately have "\<exists>x \<in> set (ws s). is_running x" by blast
  then have "filter is_running (ws s) \<noteq> []"
    by (simp add: filter_empty_conv)
  then have one: "1 \<le> running s"
    by (cases "filter is_running (ws s)") (simp_all add: running_def)
  from finish assms(2) one running_update [of i s WExit] running_update [of i s WSelect]
  show ?thesis
    by (auto simp: slots_held_def worker_finish_def ps_exit_def report_def recv_def send_def
        running_def Let_def
        split: option.splits hresult.splits prod.splits received.splits list.splits sent.splits
          if_splits)
qed

text \<open>
  C2. For every configuration with \<open>Workers\<close> at least 1, every item slice and
  every queue capacity, in every state a \<open>ProcessBatch\<close> call on the processor
  made from that configuration can reach, the number of handler invocations in
  progress is at most \<open>Workers\<close>. It equals the number of slots taken in
  \<open>workerPool\<close>, whose capacity is \<open>Workers\<close>.
\<close>

theorem ProcessBatch_bounded_concurrency:
  assumes "1 \<le> Workers config"
    and "NewBatchProcessor NumCPU config = Inr processor"
    and "pb_reach M handler (pb_init processor parent stmts h) s"
  shows "running s \<le> nat (Workers config) \<and>
         running s = length (buf (workerPool (bp s))) \<and>
         cap (workerPool (bp s)) = nat (Workers config)"
proof -
  note p = NewBatchProcessor_Inr(1) [OF assms(2)]
  have w: "workers processor = Workers config" "buf (workerPool processor) = []"
    "cap (workerPool processor) = nat (Workers config)"
    using assms(1) by (simp_all add: p)
  have "length (ws s) \<le> nat (Workers config)"
    using pb_reach_ws_length [OF assms(3)] by (simp add: pb_init_def w)
  moreover have "running s \<le> length (ws s)"
    by (simp add: running_def)
  moreover have "slots_held s"
    using assms(3)
  proof (induction rule: pb_reach.induct)
    case pb_reach_start
    show ?case by (simp add: slots_held_def pb_init_def running_def w)
  next
    case (pb_reach_step s a s')
    then show ?case using slots_held_exec by blast
  qed
  moreover have "cap (workerPool (bp s)) = nat (Workers config)"
    using pb_reach_frame [OF assms(3)] by (simp add: frame_def pb_init_def w)
  ultimately show ?thesis by (simp add: slots_held_def)
qed

theorem ProcessBatch_bounded_concurrency_witness:
  "1 \<le> Workers toy_config \<and> NewBatchProcessor 4 toy_config = Inr toy_processor \<and>
   (\<exists>s. pb_run toy_optimizer toy_handler
           [Main CaseDefault, Main CaseSend, Main CaseSend, Worker 0 CaseRecv, Worker 0 CaseSlot]
           (pb_init toy_processor None [''a'', ''b''] (0::nat)) = Some s \<and>
        running s = 1 \<and> running s \<le> nat (Workers toy_config))"
proof -
  have r: "\<exists>s. pb_run toy_optimizer toy_handler
           [Main CaseDefault, Main CaseSend, Main CaseSend, Worker 0 CaseRecv, Worker 0 CaseSlot]
           (pb_init toy_processor None [''a'', ''b''] (0::nat)) = Some s \<and> running s = 1"
    by (simp add: step_defs toy_processor_def toy_optimizer_def toy_handler_def Second_def running_def)
  then obtain s where s: "pb_run toy_optimizer toy_handler
           [Main CaseDefault, Main CaseSend, Main CaseSend, Worker 0 CaseRecv, Worker 0 CaseSlot]
           (pb_init toy_processor None [''a'', ''b''] (0::nat)) = Some s" "running s = 1"
    by blast
  have w: "1 \<le> Workers toy_config" by (simp add: toy_config_def)
  have "running s \<le> nat (Workers toy_config)"
    using ProcessBatch_bounded_concurrency [OF w toy_processor_new pb_run_reach [OF s(1)]]
    by blast
  with s w toy_processor_new show ?thesis by blast
qed


section \<open>Properties of the batch processor: one use\<close>

lemma first_call_exec:
  assumes "pb_exec M handler a s = Some s'" and "first_call s"
  shows "first_call s'"
proof -
  have fr: "frame (bp s) (bp s')" using assms(1) by (rule pb_exec_frame)
  have keep: "first_call s'" if "main s' = main s"
    using that fr assms(2) by (auto simp: first_call_def frame_def)
  from assms(1) show ?thesis
  proof (cases rule: pb_exec_cases)
    case (ctx_done err)
    then show ?thesis by (intro keep) simp
  next
    case (entry stmts)
    with assms(2) show ?thesis
      by (auto simp: first_call_def main_entry_def panic_main_def makechan_def Let_def isStopped_def
          split: if_splits sum.splits)
  next
    case close
    with assms(2) show ?thesis
      by (auto simp: first_call_def main_close_def panic_main_def close_chan_def split: if_splits sum.splits)
  next
    case (send stmt rest c)
    with assms(2) show ?thesis
      by (auto simp: first_call_def main_send_def panic_main_def return_main_def close_and_return_def
          close_chan_def send_def
          split: sel.splits option.splits sent.splits received.splits if_splits sum.splits)
  next
    case wait
    with assms(2) show ?thesis
      by (auto simp: first_call_def main_wait_def split: if_splits)
  next
    case (final c)
    with assms(2) show ?thesis
      by (auto simp: first_call_def main_final_def return_main_def
          split: sel.splits option.splits received.splits if_splits)
  next
    case (select i c)
    then show ?thesis by (intro keep) (rule worker_select_main)
  next
    case (acquire i stmt c)
    then show ?thesis by (intro keep) (rule worker_acquire_main)
  next
    case (finish i stmt held)
    then show ?thesis by (intro keep) (rule worker_finish_main)
  qed
qed

lemma second_call_exec:
  assumes "pb_exec M handler a s = Some s'" and "second_call stmts s" and "stmts \<noteq> []"
  shows "second_call stmts s'"
proof -
  have fr: "frame (bp s) (bp s')" using assms(1) by (rule pb_exec_frame)
  have keep: "second_call stmts s'" if "main s' = main s"
    using that fr assms(2) by (auto simp: second_call_def frame_def)
  from assms(1) show ?thesis
  proof (cases rule: pb_exec_cases)
    case (ctx_done err)
    then show ?thesis by (intro keep) simp
  next
    case (entry stmts')
    with assms(2) show ?thesis
      by (auto simp: second_call_def main_entry_def panic_main_def makechan_def Let_def isStopped_def
          split: if_splits sum.splits)
  next
    case close
    with assms(2,3) show ?thesis
      by (auto simp: second_call_def)
  next
    case (send stmt rest c)
    with assms(2) show ?thesis
      by (auto simp: second_call_def main_send_def panic_main_def return_main_def close_and_return_def
          close_chan_def send_def
          split: sel.splits option.splits sent.splits received.splits if_splits sum.splits)
  next
    case wait
    with assms(2) show ?thesis by (auto simp: second_call_def)
  next
    case (final c)
    with assms(2) show ?thesis by (auto simp: second_call_def)
  next
    case (select i c)
    then show ?thesis by (intro keep) (rule worker_select_main)
  next
    case (acquire i stmt c)
    then show ?thesis by (intro keep) (rule worker_acquire_main)
  next
    case (finish i stmt held)
    then show ?thesis by (intro keep) (rule worker_finish_main)
  qed
qed

text \<open>
  C8, amended. A \<open>ProcessBatch\<close> call on a processor that is not stopped has
  closed the queue whenever it returns. After such a call has returned, \<open>Stop\<close>
  panics closing the closed channel, and a second \<open>ProcessBatch\<close> call with a
  non-empty slice never returns: its caller stays at the entry or at the first send
  until it panics, by the send on the closed channel (which is always ready) or, when
  the \<open>select\<close> takes the \<open>ctx.Done()\<close> or the \<open>errChan\<close> case, by the
  second \<open>close\<close>.
\<close>

theorem BatchProcessor_single_use:
  assumes "\<not> stopped processor"
    and "pb_reach M handler (pb_init processor parent stmts h) s"
    and "main s = MDone (Returned result)"
  shows "closed (queue (bp s)) \<and>
         Stop (bp s) = (Some CloseOfClosedChannel, (bp s)\<lparr>stopped := True\<rparr>) \<and>
         (\<forall>s2. stmts2 \<noteq> [] \<and> pb_reach M2 handler2 (pb_init (bp s) parent2 stmts2 h2) s2 \<longrightarrow>
            (main s2 = MEntry stmts2 \<or> main s2 = MSend stmts2 \<or>
             main s2 = MDone (Panicked SendOnClosedChannel) \<or>
             main s2 = MDone (Panicked CloseOfClosedChannel)) \<and>
            (main s2 = MSend stmts2 \<and> \<not> crashed s2 \<longrightarrow>
               pb_exec M2 handler2 (Main CaseSend) s2 = Some (panic_main SendOnClosedChannel s2)))"
proof -
  have "first_call s"
    using assms(2)
  proof (induction rule: pb_reach.induct)
    case pb_reach_start
    show ?case using assms(1) by (simp add: first_call_def pb_init_def)
  next
    case (pb_reach_step s a s')
    then show ?case using first_call_exec by blast
  qed
  with assms(3) have c: "closed (queue (bp s))" and ns: "\<not> stopped (bp s)" and w: "0 \<le> workers (bp s)"
    by (simp_all add: first_call_def)
  have stop: "Stop (bp s) = (Some CloseOfClosedChannel, (bp s)\<lparr>stopped := True\<rparr>)"
    using c ns by (simp add: Stop_def close_chan_def Let_def)
  have second: "second_call stmts2 s2"
    if "stmts2 \<noteq> []" and "pb_reach M2 handler2 (pb_init (bp s) parent2 stmts2 h2) s2" for s2
    using that(2)
  proof (induction rule: pb_reach.induct)
    case pb_reach_start
    show ?case using c ns w by (simp add: second_call_def pb_init_def)
  next
    case (pb_reach_step s a s')
    then show ?case using second_call_exec that(1) by blast
  qed
  have panic: "pb_exec M2 handler2 (Main CaseSend) s2 = Some (panic_main SendOnClosedChannel s2)"
    if "second_call stmts2 s2" "stmts2 \<noteq> []" "main s2 = MSend stmts2" "\<not> crashed s2" for s2
    using that
    by (cases stmts2) (auto simp: second_call_def pb_exec_def main_step_def main_send_def send_def)
  show ?thesis
    using c stop second panic by (auto simp: second_call_def)
qed


theorem BatchProcessor_single_use_witness:
  "\<not> stopped toy_processor \<and>
   (\<exists>s. pb_run toy_optimizer toy_handler
          [Main CaseDefault, Main CaseSend, Worker 0 CaseRecv, Worker 0 CaseSlot, Worker 0 CaseDefault,
           Main CaseDefault, Worker 0 CaseRecv, Main CaseDefault, Main CaseDefault]
          (pb_init toy_processor None [''a''] (0::nat)) = Some s \<and>
        main s = MDone (Returned None) \<and> closed (queue (bp s)) \<and>
        Stop (bp s) = (Some CloseOfClosedChannel, (bp s)\<lparr>stopped := True\<rparr>) \<and>
        (\<exists>s2. pb_run toy_optimizer toy_handler [Main CaseDefault] (pb_init (bp s) None [''b''] (0::nat)) = Some s2 \<and>
           main s2 = MSend [''b''] \<and> \<not> crashed s2 \<and>
           pb_exec toy_optimizer toy_handler (Main CaseSend) s2 = Some (panic_main SendOnClosedChannel s2)))"
proof -
  have ns: "\<not> stopped toy_processor" by (simp add: toy_processor_def)
  have "\<exists>s. pb_run toy_optimizer toy_handler
          [Main CaseDefault, Main CaseSend, Worker 0 CaseRecv, Worker 0 CaseSlot, Worker 0 CaseDefault,
           Main CaseDefault, Worker 0 CaseRecv, Main CaseDefault, Main CaseDefault]
          (pb_init toy_processor None [''a''] (0::nat)) = Some s \<and>
        main s = MDone (Returned None) \<and>
        (\<exists>s2. pb_run toy_optimizer toy_handler [Main CaseDefault] (pb_init (bp s) None [''b''] (0::nat)) = Some s2 \<and>
           main s2 = MSend [''b''] \<and> \<not> crashed s2)"
    by (simp add: step_defs toy_processor_def toy_optimizer_def toy_handler_def Second_def)
  then obtain s s2 where s: "pb_run toy_optimizer toy_handler
          [Main CaseDefault, Main CaseSend, Worker 0 CaseRecv, Worker 0 CaseSlot, Worker 0 CaseDefault,
           Main CaseDefault, Worker 0 CaseRecv, Main CaseDefault, Main CaseDefault]
          (pb_init toy_processor None [''a''] (0::nat)) = Some s"
      "main s = MDone (Returned None)"
    and s2: "pb_run toy_optimizer toy_handler [Main CaseDefault] (pb_init (bp s) None [''b''] (0::nat)) = Some s2"
      "main s2 = MSend [''b'']" "\<not> crashed s2"
    by blast
  have ne: "[''b''] \<noteq> []" by simp
  note single = BatchProcessor_single_use [OF ns pb_run_reach [OF s(1)] s(2),
      of "[''b'']" toy_optimizer toy_handler None 0]
  from single have "closed (queue (bp s))"
    and "Stop (bp s) = (Some CloseOfClosedChannel, (bp s)\<lparr>stopped := True\<rparr>)"
    by blast+
  moreover have "pb_exec toy_optimizer toy_handler (Main CaseSend) s2 = Some (panic_main SendOnClosedChannel s2)"
    using single ne pb_run_reach [OF s2(1)] s2(2,3) by blast
  ultimately show ?thesis using ns s s2 by blast
qed

text \<open>
  The claim as stated fails on a stopped processor: the call returns at line 71
  without closing anything, a second call with an item returns the same error and
  \<open>Stop\<close> returns, none of them panicking. And on a used processor a second call
  whose context is already done can panic by the second \<open>close\<close>, not by the send.
\<close>

theorem BatchProcessor_single_use_counterexample:
  "(\<exists>processor s1 s2.
     Stop toy_processor = (None, processor) \<and>
     pb_run toy_optimizer toy_handler [Main CaseDefault] (pb_init processor None [''a''] (0::nat)) = Some s1 \<and>
     main s1 = MDone (Returned (Some ErrBatchProcessorStopped)) \<and>
     pb_run toy_optimizer toy_handler [Main CaseSend] (pb_init (bp s1) None [''b''] (0::nat)) = Some s2 \<and>
     main s2 = MDone (Returned (Some ErrBatchProcessorStopped)) \<and>
     Stop (bp s1) = (None, bp s1)) \<and>
   (\<exists>s1 s2.
     pb_run toy_optimizer toy_handler
       [Main CaseDefault, Main CaseDefault, Worker 0 CaseRecv, Main CaseDefault, Main CaseDefault]
       (pb_init toy_processor None [] (0::nat)) = Some s1 \<and>
     main s1 = MDone (Returned None) \<and>
     pb_run toy_optimizer toy_handler [Main CaseDefault, Main CaseCtx]
       (pb_init (bp s1) (Some Canceled) [''b''] (0::nat)) = Some s2 \<and>
     main s2 = MDone (Panicked CloseOfClosedChannel))"
  by (simp add: step_defs toy_processor_def toy_optimizer_def toy_handler_def Stop_def Second_def
      Let_def)

end
